theory Spec2Isabelle
  imports Complex_Main "HOL-Library.Char_ord" "HOL-Library.List_Lexorder"
begin

section \<open>Python values, numbers and dates\<close>

text \<open>
  The planner is \<open>src/planners/rollout_planner.py\<close>, class \<open>RolloutPlanner\<close>.
  Its arithmetic is on Python floats; here a float is the rational it denotes (\<open>rat\<close>), so
  infinities and NaN are outside the model. The budget allocation and the phase offsets
  round every operation to the nearest double (\<open>fl\<close> below). The derivation of the budget
  and the phase percentages are computed exactly: there \<open>round\<close> sees the exact value of a
  product or quotient where Python sees the nearest double.
  Python's built-in \<open>round\<close> rounds a tie to the even neighbour.
\<close>

datatype error = TypeError | ValueError | OverflowError

definition py_round :: "rat \<Rightarrow> int" where
  "py_round x =
     (let f = \<lfloor>x\<rfloor>; d = x - of_int f
      in if d < 1 / 2 then f else if 1 / 2 < d then f + 1 else if even f then f else f + 1)"

text \<open>\<open>round(x, 2)\<close> and \<open>round(x, 1)\<close>.\<close>

definition py_round2 :: "rat \<Rightarrow> rat" where
  "py_round2 x = of_int (py_round (x * 100)) / 100"

definition py_round1 :: "rat \<Rightarrow> rat" where
  "py_round1 x = of_int (py_round (x * 10)) / 10"

text \<open>\<open>int(x)\<close> of a float truncates towards zero.\<close>

definition py_trunc :: "rat \<Rightarrow> int" where
  "py_trunc x = (if 0 \<le> x then \<lfloor>x\<rfloor> else \<lceil>x\<rceil>)"

text \<open>
  A double is the rational it denotes. \<open>fl\<close> rounds a rational to the nearest double with
  53 significant bits, a tie to the even one, as each operation on doubles rounds its exact
  result; the exponent is not bounded, so overflow to infinity and gradual underflow are
  not modelled. \<open>bit_length\<close> is \<open>int.bit_length\<close> of a positive int, and \<open>float_exponent x\<close> is the
  \<open>e\<close> with \<open>2^e \<le> |x| < 2^(e+1)\<close>.
\<close>

function bit_length :: "int \<Rightarrow> nat" where
  "bit_length n = (if n \<le> 0 then 0 else Suc (bit_length (n div 2)))"
  by pat_completeness auto
termination
  by (relation "measure nat") auto

definition float_exponent :: "rat \<Rightarrow> int" where
  "float_exponent x =
     (if 1 \<le> \<bar>x\<bar> then int (bit_length \<lfloor>\<bar>x\<bar>\<rfloor>) - 1
      else - int (bit_length (\<lceil>1 / \<bar>x\<bar>\<rceil> - 1)))"

definition fl :: "rat \<Rightarrow> rat" where
  "fl x =
     (if x = 0 then 0
      else (let q = 2 powi (float_exponent x - 52) in of_int (py_round (x / q)) * q))"

text \<open>
  \<open>round(x, 2)\<close> of a double: the exact value rounded to 2 decimals, a tie to the even
  digit, and of that the nearest double.
\<close>

definition round2_double :: "rat \<Rightarrow> rat" where
  "round2_double x = fl (py_round2 x)"

text \<open>
  \<open>sum(...)\<close> of floats, which starts from 0 and rounds after each addition (CPython
  before 3.12; later versions compensate the rounding errors).
\<close>

definition float_sum :: "rat list \<Rightarrow> rat" where
  "float_sum xs = foldl (\<lambda>acc x. fl (acc + x)) 0 xs"

text \<open>
  The values a field of the \<open>movie_profile\<close> dictionary can hold, as far as truthiness,
  \<open>float()\<close> and \<open>int()\<close> tell them apart.
\<close>

datatype pyval =
    PNone
  | PBool bool
  | PInt int
  | PFloat rat
  | PStr string
  | PList "pyval list"

fun truthy :: "pyval \<Rightarrow> bool" where
  "truthy PNone = False"
| "truthy (PBool b) = b"
| "truthy (PInt i) = (i \<noteq> 0)"
| "truthy (PFloat x) = (x \<noteq> 0)"
| "truthy (PStr s) = (s \<noteq> [])"
| "truthy (PList vs) = (vs \<noteq> [])"

text \<open>\<open>a or b\<close>.\<close>

definition py_or :: "pyval \<Rightarrow> pyval \<Rightarrow> pyval" where
  "py_or a b = (if truthy a then a else b)"

text \<open>
  A datetime is the number of microseconds since 0001-01-01 00:00:00, a timedelta a number
  of microseconds. \<open>datetime.min\<close> is 0 and \<open>datetime.max\<close> is the last microsecond of
  9999-12-31, whose ordinal is 3652059. A date that the plan reports as
  \<open>strftime('%Y-%m-%d')\<close> is kept as the number of its day, \<open>strftime_ymd\<close>; where the
  code sorts by the text or parses it again, the model uses the text of that day
  (\<open>date_text\<close>, \<open>strptime_text\<close>).
\<close>

type_synonym datetime = int

definition day_us :: int where
  "day_us = 86400000000"

definition datetime_end :: int where
  "datetime_end = 3652059 * day_us"

definition strftime_ymd :: "datetime \<Rightarrow> int" where
  "strftime_ymd t = t div day_us"

definition midnight_of :: "int \<Rightarrow> datetime" where
  "midnight_of d = d * day_us"

text \<open>
  The text of a day, where the code compares it or parses it again. The calendar is the
  proleptic Gregorian one, computed as \<open>_ord2ymd\<close> of the datetime module does, from the
  number of days since 0001-01-01. \<open>strftime('%Y-%m-%d')\<close> prints the year as the C library
  does, without padding: \<open>999-12-20\<close>, where month and day have two digits.
\<close>

definition days_before_month :: "int \<Rightarrow> int" where
  "days_before_month m = [- 1, 0, 31, 59, 90, 120, 151, 181, 212, 243, 273, 304, 334] ! nat m"

definition days_in_month :: "int \<Rightarrow> int" where
  "days_in_month m = [- 1, 31, 28, 31, 30, 31, 30, 31, 31, 30, 31, 30, 31] ! nat m"

definition ord2ymd :: "int \<Rightarrow> int \<times> int \<times> int" where
  "ord2ymd d =
     (let n400 = d div 146097; r400 = d mod 146097;
          n100 = r400 div 36524; r100 = r400 mod 36524;
          n4 = r100 div 1461; r4 = r100 mod 1461;
          n1 = r4 div 365; n = r4 mod 365;
          year = n400 * 400 + 1 + n100 * 100 + n4 * 4 + n1
      in if n1 = 4 \<or> n100 = 4 then (year - 1, 12, 31)
         else
           (let leapyear = (n1 = 3 \<and> (n4 \<noteq> 24 \<or> n100 = 3));
                month = (n + 50) div 32;
                preceding = days_before_month month + (if 2 < month \<and> leapyear then 1 else 0)
            in if n < preceding
               then (let month' = month - 1;
                         preceding' = preceding
                           - (days_in_month month' + (if month' = 2 \<and> leapyear then 1 else 0))
                     in (year, month', n - preceding' + 1))
               else (year, month, n - preceding + 1)))"

definition digit_char :: "int \<Rightarrow> char" where
  "digit_char k = ''0123456789'' ! nat k"

definition two_digits :: "int \<Rightarrow> string" where
  "two_digits k = [digit_char (k div 10), digit_char (k mod 10)]"

definition year_text :: "int \<Rightarrow> string" where
  "year_text y =
     (if y < 10 then [digit_char y]
      else if y < 100 then two_digits y
      else if y < 1000 then digit_char (y div 100) # two_digits (y mod 100)
      else two_digits (y div 100) @ two_digits (y mod 100))"

definition date_text :: "int \<Rightarrow> string" where
  "date_text d =
     (case ord2ymd d of (y, m, dd) \<Rightarrow> year_text y @ ''-'' @ two_digits m @ ''-'' @ two_digits dd)"

text \<open>
  \<open>datetime.strptime(text, '%Y-%m-%d')\<close> of the text printed for a day: \<open>%Y\<close> wants four
  digits, which the text has from 1000-01-01 on, day 364877; before that it raises
  ValueError.
\<close>

definition strptime_text :: "int \<Rightarrow> error + datetime" where
  "strptime_text d = (if d < 364877 then Inl ValueError else Inr (midnight_of d))"

text \<open>\<open>timedelta(days=d)\<close> and \<open>timedelta(weeks=w)\<close>: at most 999999999 days either way.\<close>

definition timedelta_days :: "int \<Rightarrow> error + int" where
  "timedelta_days d =
     (if - 999999999 \<le> d \<and> d \<le> 999999999 then Inr (d * day_us) else Inl OverflowError)"

definition timedelta_weeks :: "int \<Rightarrow> error + int" where
  "timedelta_weeks w = timedelta_days (7 * w)"

text \<open>\<open>t + delta\<close> and \<open>t - delta\<close> of a datetime: the result has to be a datetime.\<close>

definition dt_add :: "datetime \<Rightarrow> int \<Rightarrow> error + datetime" where
  "dt_add t delta =
     (if 0 \<le> t + delta \<and> t + delta < datetime_end then Inr (t + delta) else Inl OverflowError)"

definition dt_sub :: "datetime \<Rightarrow> int \<Rightarrow> error + datetime" where
  "dt_sub t delta = dt_add t (- delta)"

text \<open>\<open>(a - b).days\<close> of two datetimes.\<close>

definition days_between :: "datetime \<Rightarrow> datetime \<Rightarrow> int" where
  "days_between a b = (a - b) div day_us"

text \<open>
  What the planner reads from outside the repository: the clock (read once when the release
  date does not parse, once in the derivation of the parameters) and the parsers of the
  standard library, \<open>float(s)\<close> and \<open>int(s)\<close> of a string and
  \<open>datetime.strptime(s, '%Y-%m-%d')\<close>, each \<open>None\<close> where Python raises.
\<close>

record pyenv =
  now_fallback :: datetime
  now_derive :: datetime
  float_of_str :: "string \<Rightarrow> rat option"
  int_of_str :: "string \<Rightarrow> int option"
  strptime_ymd :: "string \<Rightarrow> int option"

text \<open>
  \<open>float(v)\<close>: an int at or beyond \<open>2^1024 - 2^970\<close> does not fit a double.
\<close>

fun py_float :: "pyenv \<Rightarrow> pyval \<Rightarrow> error + rat" where
  "py_float env PNone = Inl TypeError"
| "py_float env (PBool b) = Inr (if b then 1 else 0)"
| "py_float env (PInt i) =
     (if \<bar>i\<bar> < 2 ^ 1024 - 2 ^ 970 then Inr (of_int i) else Inl OverflowError)"
| "py_float env (PFloat x) = Inr x"
| "py_float env (PStr s) =
     (case float_of_str env s of None \<Rightarrow> Inl ValueError | Some x \<Rightarrow> Inr x)"
| "py_float env (PList vs) = Inl TypeError"

fun py_int :: "pyenv \<Rightarrow> pyval \<Rightarrow> error + int" where
  "py_int env PNone = Inl TypeError"
| "py_int env (PBool b) = Inr (if b then 1 else 0)"
| "py_int env (PInt i) = Inr i"
| "py_int env (PFloat x) = Inr (py_trunc x)"
| "py_int env (PStr s) =
     (case int_of_str env s of None \<Rightarrow> Inl ValueError | Some i \<Rightarrow> Inr i)"
| "py_int env (PList vs) = Inl TypeError"

text \<open>\<open>try: ... except (TypeError, ValueError): default\<close>; any other error goes on.\<close>

definition except_type_value :: "error + 'a \<Rightarrow> 'a \<Rightarrow> error + 'a" where
  "except_type_value r dflt =
     (case r of
        Inr x \<Rightarrow> Inr x
      | Inl TypeError \<Rightarrow> Inr dflt
      | Inl ValueError \<Rightarrow> Inr dflt
      | Inl OverflowError \<Rightarrow> Inl OverflowError)"

section \<open>The data of a plan\<close>

text \<open>
  Modelled from the spec: the regional scorer (\<open>analyzers/regional_scorer.py\<close>) is not
  among the sources, so the entries of \<open>ranked_regions\<close> are what the spec's data model
  says of a RegionScore: a region code, a total score, a tier that is A, B or C, a
  suggested budget percentage and a recommendation.
\<close>

datatype tier = A | B | C

record region_score =
  region :: string
  total_score :: rat
  tier :: tier
  suggested_budget_pct :: rat
  recommendation :: string

type_synonym movie_profile = "string \<rightharpoonup> pyval"

text \<open>\<open>d.get(k, default)\<close> and \<open>d.get(k)\<close>.\<close>

definition dict_get :: "movie_profile \<Rightarrow> string \<Rightarrow> pyval \<Rightarrow> pyval" where
  "dict_get d k dflt = (case d k of None \<Rightarrow> dflt | Some v \<Rightarrow> v)"

record campaign_parameters =
  total_budget :: int
  campaign_weeks :: int
  tier_a_markets :: nat
  tier_b_markets :: nat
  interest_index_signal :: rat
  popularity_signal :: rat
  release_gap_weeks_signal :: int

section \<open>Campaign parameters\<close>

text \<open>
  \<open>_derive_campaign_parameters\<close>. The result keeps the budget, the duration and the
  \<open>signals\<close> of the rationale; the sentences of the rationale are text only and are left
  out.
\<close>

definition tier_count :: "tier \<Rightarrow> region_score list \<Rightarrow> nat" where
  "tier_count t ranked_regions = length (filter (\<lambda>r. tier r = t) ranked_regions)"

definition interest_index :: "region_score list \<Rightarrow> rat" where
  "interest_index ranked_regions =
     (let top_scores = take 3 (map total_score ranked_regions)
      in if top_scores \<noteq> [] then sum_list top_scores / of_nat (length top_scores) / 100
         else 55 / 100)"

definition popularity_of :: "pyenv \<Rightarrow> movie_profile \<Rightarrow> error + rat" where
  "popularity_of env profile =
     except_type_value
       (py_float env (py_or (dict_get profile ''popularity'' (PInt 45)) (PInt 45))) 45"

definition production_budget_of :: "pyenv \<Rightarrow> movie_profile \<Rightarrow> error + rat" where
  "production_budget_of env profile =
     except_type_value (py_float env (py_or (dict_get profile ''budget'' PNone) (PInt 0))) 0"

definition vote_count_of :: "pyenv \<Rightarrow> movie_profile \<Rightarrow> error + int" where
  "vote_count_of env profile =
     except_type_value (py_int env (py_or (dict_get profile ''vote_count'' PNone) (PInt 0))) 0"

definition release_gap_days :: "datetime \<Rightarrow> datetime \<Rightarrow> int" where
  "release_gap_days release_dt now = max 0 (days_between release_dt now)"

definition release_gap_weeks :: "datetime \<Rightarrow> datetime \<Rightarrow> int" where
  "release_gap_weeks release_dt now =
     (let d = release_gap_days release_dt now
      in if d \<noteq> 0 then \<lceil>(of_int d :: rat) / 7\<rceil> else 0)"

definition derive_weeks :: "int option \<Rightarrow> int \<Rightarrow> rat \<Rightarrow> nat \<Rightarrow> rat \<Rightarrow> int" where
  "derive_weeks override_duration gap_weeks popularity tier_a_count production_budget =
     (case override_duration of
        Some d \<Rightarrow> max 1 d
      | None \<Rightarrow>
          (let base_weeks = (if 0 < gap_weeks then min (max gap_weeks 4) 16 else 6);
               w1 = (if 70 \<le> popularity then base_weeks + 1 else base_weeks);
               w2 = (if 3 \<le> tier_a_count then w1 + 1 else w1);
               w3 = (if 150000000 \<le> production_budget then w2 + 1 else w2)
           in max 4 (min w3 16)))"

definition marketing_ratio :: "rat \<Rightarrow> rat" where
  "marketing_ratio production_budget =
     (if 150000000 \<le> production_budget then 4 / 10
      else if 75000000 \<le> production_budget then 32 / 100
      else if 25000000 \<le> production_budget then 25 / 100
      else 18 / 100)"

definition popularity_factor :: "rat \<Rightarrow> rat" where
  "popularity_factor popularity =
     (let pop_score = max 0 (min popularity 100) in 1 + pop_score / 100 * (35 / 100))"

definition tier_factor :: "nat \<Rightarrow> nat \<Rightarrow> rat" where
  "tier_factor tier_a_count tier_b_count =
     1 + of_nat (min tier_a_count 4) * (8 / 100) + of_nat (min tier_b_count 4) * (3 / 100)"

definition interest_factor :: "rat \<Rightarrow> rat" where
  "interest_factor idx = 1 + max 0 (idx - 55 / 100) * (1 / 2)"

definition audience_factor :: "int \<Rightarrow> rat" where
  "audience_factor vote_count = 1 + min (of_int vote_count / 50000) 1 * (15 / 100)"

text \<open>
  \<open>vote_count / 50000\<close> divides two ints: it raises OverflowError when the quotient does
  not fit a double, which \<open>derive_budget\<close> checks before it uses the factor. An override
  of the budget is printed with the format \<open>,.0f\<close> after \<open>int()\<close>, which raises
  OverflowError for an int that does not fit a double.
\<close>

definition round_budget :: "rat \<Rightarrow> int" where
  "round_budget base_budget =
     (let computed_budget = max 250000 (min base_budget 20000000)
      in max 250000 (py_round (computed_budget / 50000) * 50000))"

definition derive_budget ::
  "pyenv \<Rightarrow> movie_profile \<Rightarrow> rat option \<Rightarrow> rat \<Rightarrow> rat \<Rightarrow> nat \<Rightarrow> nat \<Rightarrow> rat \<Rightarrow> error + int"
where
  "derive_budget env profile override_budget popularity production_budget
       tier_a_count tier_b_count idx =
     (case override_budget of
        Some b \<Rightarrow>
          (if \<bar>py_trunc b\<bar> < 2 ^ 1024 - 2 ^ 970 then Inr (py_trunc b)
           else Inl OverflowError)
      | None \<Rightarrow>
          (let base0 = (if 0 < production_budget
                        then production_budget * marketing_ratio production_budget
                        else 350000);
               base1 = base0 * popularity_factor popularity;
               base2 = base1 * tier_factor tier_a_count tier_b_count;
               base3 = base2 * interest_factor idx
           in case vote_count_of env profile of
                Inl e \<Rightarrow> Inl e
              | Inr vote_count \<Rightarrow>
                  if vote_count \<noteq> 0 then
                    (if \<bar>(of_int vote_count :: rat) / 50000\<bar> < 2 ^ 1024 - 2 ^ 970
                     then Inr (round_budget (base3 * audience_factor vote_count))
                     else Inl OverflowError)
                  else Inr (round_budget base3)))"

definition derive_campaign_parameters ::
  "pyenv \<Rightarrow> movie_profile \<Rightarrow> region_score list \<Rightarrow> rat option \<Rightarrow> int option \<Rightarrow> datetime
     \<Rightarrow> error + campaign_parameters"
where
  "derive_campaign_parameters env profile ranked_regions override_budget override_duration
       release_dt =
     (let tier_a_count = tier_count A ranked_regions;
          tier_b_count = tier_count B ranked_regions;
          idx = interest_index ranked_regions
      in case popularity_of env profile of
           Inl e \<Rightarrow> Inl e
         | Inr popularity \<Rightarrow>
       (case production_budget_of env profile of
           Inl e \<Rightarrow> Inl e
         | Inr production_budget \<Rightarrow>
       (let gap_weeks = release_gap_weeks release_dt (now_derive env);
            weeks = derive_weeks override_duration gap_weeks popularity tier_a_count
                      production_budget
        in case derive_budget env profile override_budget popularity production_budget
                  tier_a_count tier_b_count idx of
             Inl e \<Rightarrow> Inl e
           | Inr budget \<Rightarrow>
               Inr \<lparr>total_budget = budget, campaign_weeks = weeks,
                    tier_a_markets = tier_a_count, tier_b_markets = tier_b_count,
                    interest_index_signal = py_round1 (idx * 100),
                    popularity_signal = py_round1 popularity,
                    release_gap_weeks_signal = gap_weeks\<rparr>)))"

section \<open>Phases\<close>

text \<open>
  \<open>_extract_movie_signature\<close> only composes the texts that position the film; its result
  is an input here. Of a phase the \<open>focus\<close> sentence is left out.
\<close>

record movie_signature =
  title :: string
  primary_genre :: string
  genre_focus :: string
  hook :: string
  lead :: string
  tagline :: string
  audience_callout :: string

record phase =
  phase_no :: nat
  name :: string
  start_date :: int
  duration_weeks :: int
  regions :: "string list"
  intensity :: string
  budget_percentage :: int
  movie_hook :: string

text \<open>\<open>release_dt - timedelta(weeks=w)\<close> and \<open>start_date + timedelta(weeks=w)\<close>.\<close>

definition minus_weeks :: "datetime \<Rightarrow> int \<Rightarrow> error + datetime" where
  "minus_weeks t w = (case timedelta_weeks w of Inl e \<Rightarrow> Inl e | Inr d \<Rightarrow> dt_sub t d)"

definition plus_weeks :: "datetime \<Rightarrow> int \<Rightarrow> error + datetime" where
  "plus_weeks t w = (case timedelta_weeks w of Inl e \<Rightarrow> Inl e | Inr d \<Rightarrow> dt_add t d)"

text \<open>
  The inner function \<open>_offset\<close>; its multiplier is the double of the literal, and the
  product of the weeks and the multiplier is a product of doubles.
\<close>

definition offset_weeks :: "int \<Rightarrow> rat \<Rightarrow> int \<Rightarrow> int" where
  "offset_weeks total_weeks multiplier min_week =
     (if total_weeks \<le> min_week then max 0 (total_weeks - 1)
      else min (total_weeks - 1)
             (max min_week (py_round (fl (fl (of_int total_weeks) * fl multiplier)))))"

definition tier_regions :: "tier \<Rightarrow> region_score list \<Rightarrow> region_score list" where
  "tier_regions t ranked_regions = filter (\<lambda>r. tier r = t) ranked_regions"

definition tier_weight :: "tier \<Rightarrow> nat \<Rightarrow> int" where
  "tier_weight t n =
     (case t of
        A \<Rightarrow> 40 + min (int n * 4) 20
      | B \<Rightarrow> 30 + min (int n * 3) 15
      | C \<Rightarrow> 20 + min (int n * 2) 10)"

text \<open>\<open>weight_map\<close>, in the order of \<open>ordered_keys\<close>.\<close>

definition weight_map :: "region_score list \<Rightarrow> (tier \<times> int) list" where
  "weight_map ranked_regions =
     concat (map (\<lambda>t. if tier_regions t ranked_regions \<noteq> []
                       then [(t, tier_weight t (length (tier_regions t ranked_regions)))]
                       else []) [A, B, C])"

text \<open>The loop over \<open>ordered_keys\<close> with its \<open>running_total\<close>.\<close>

fun normalize_pct :: "(tier \<times> int) list \<Rightarrow> int \<Rightarrow> int \<Rightarrow> (tier \<times> int) list" where
  "normalize_pct [] total_weight running_total = []"
| "normalize_pct ((k, w) # rest) total_weight running_total =
     (let pct = (if rest = [] then 100 - running_total
                 else py_round (of_int w / of_int total_weight * 100))
      in (k, pct) # normalize_pct rest total_weight (running_total + pct))"

definition normalized_pct :: "region_score list \<Rightarrow> (tier \<times> int) list" where
  "normalized_pct ranked_regions =
     (let wm = weight_map ranked_regions;
          s = sum_list (map snd wm);
          total_weight = (if s \<noteq> 0 then s else 1)
      in normalize_pct wm total_weight 0)"

definition pct_get :: "(tier \<times> int) list \<Rightarrow> tier \<Rightarrow> int" where
  "pct_get npct k = (case map_of npct k of None \<Rightarrow> 0 | Some p \<Rightarrow> p)"

definition phase_duration :: "datetime \<Rightarrow> datetime \<Rightarrow> int" where
  "phase_duration release_date start =
     max 1 \<lceil>(of_int (days_between release_date start) :: rat) / 7\<rceil>"

definition hook_text :: "movie_signature \<Rightarrow> string" where
  "hook_text sig =
     (if hook sig \<noteq> [] then hook sig else if title sig \<noteq> [] then title sig else ''the film'')"

text \<open>The blocks of Phase 2 and Phase 3, which differ in their texts only.\<close>

definition later_phase ::
  "phase list \<Rightarrow> region_score list \<Rightarrow> datetime \<Rightarrow> datetime \<Rightarrow> int \<Rightarrow> string \<Rightarrow> string
     \<Rightarrow> int \<Rightarrow> string \<Rightarrow> error + phase list"
where
  "later_phase phases tier_rs start release_date offset nm inten pct hk =
     (if tier_rs \<noteq> [] \<and> start < release_date then
        (case plus_weeks start offset of
           Inl e \<Rightarrow> Inl e
         | Inr shifted \<Rightarrow>
             (let phase_start = min release_date shifted
              in if phase_start < release_date
                 then Inr (phases @
                        [\<lparr>phase_no = length phases + 1, name = nm,
                          start_date = strftime_ymd phase_start,
                          duration_weeks = phase_duration release_date phase_start,
                          regions = map region tier_rs, intensity = inten,
                          budget_percentage = pct, movie_hook = hk\<rparr>])
                 else Inr phases))
      else Inr phases)"

definition create_phases ::
  "region_score list \<Rightarrow> datetime \<Rightarrow> datetime \<Rightarrow> movie_signature \<Rightarrow> int
     \<Rightarrow> error + phase list"
where
  "create_phases ranked_regions start release_date sig weeks =
     (let tier_a = tier_regions A ranked_regions;
          tier_b = tier_regions B ranked_regions;
          tier_c = tier_regions C ranked_regions
      in if \<not> (tier_a \<noteq> [] \<or> tier_b \<noteq> [] \<or> tier_c \<noteq> []) then Inr []
         else
           (let total_weeks = max 1 weeks;
                offset_b = offset_weeks total_weeks (35 / 100) 1;
                offset_c = offset_weeks total_weeks (65 / 100) 2;
                npct = normalized_pct ranked_regions;
                phases1 =
                  (if tier_a \<noteq> [] then
                     [\<lparr>phase_no = 1, name = primary_genre sig @ '' Fan Ignition'',
                       start_date = strftime_ymd start,
                       duration_weeks = phase_duration release_date start,
                       regions = map region tier_a, intensity = ''High'',
                       budget_percentage = pct_get npct A, movie_hook = hook_text sig\<rparr>]
                   else [])
            in case later_phase phases1 tier_b start release_date offset_b
                      ''Social Proof Expansion'' ''Medium'' (pct_get npct B)
                      (''Localized '' @ genre_focus sig) of
                 Inl e \<Rightarrow> Inl e
               | Inr phases2 \<Rightarrow>
                   later_phase phases2 tier_c start release_date offset_c
                     ''Long-tail Sustain & Emerging Markets'' ''Low'' (pct_get npct C)
                     (''Community-driven '' @ title sig)))"

section \<open>Budget allocation\<close>

record budget_allocation =
  alloc_region :: string
  budget_amount :: rat
  percentage :: rat
  alloc_tier :: tier
  justification :: string

text \<open>
  The body of the loop of \<open>_allocate_budget\<close>, every operation rounded to a double; the
  budget is an int or a float and becomes a double in the product.
\<close>

definition allocation_of :: "rat \<Rightarrow> rat \<Rightarrow> region_score \<Rightarrow> budget_allocation" where
  "allocation_of total_pct budget r =
     (let pct = (if 0 < total_pct then fl (fl (suggested_budget_pct r / total_pct) * 100)
                 else 0);
          amount = fl (fl (pct / 100) * fl budget)
      in \<lparr>alloc_region = region r, budget_amount = round2_double amount,
           percentage = round2_double pct, alloc_tier = tier r,
           justification = recommendation r\<rparr>)"

text \<open>
  \<open>sorted(allocations, key=..., reverse=True)\<close> is stable: entries of equal amount keep
  their order, as a stable ascending sort on the negated amount does.
\<close>

definition allocate_budget :: "region_score list \<Rightarrow> rat \<Rightarrow> budget_allocation list" where
  "allocate_budget ranked_regions budget =
     (let total_pct = float_sum (map suggested_budget_pct ranked_regions)
      in sort_key (\<lambda>a. - budget_amount a) (map (allocation_of total_pct budget) ranked_regions))"

section \<open>Timeline\<close>

record timeline_week =
  week_no :: int
  week_start_date :: int
  week_end_date :: int
  week_phase :: string
  active_regions :: "string list"
  key_activities :: "string list"
  week_intensity :: string

definition get_weekly_activities :: "int \<Rightarrow> string list" where
  "get_weekly_activities weeks_to_release =
     (if 6 \<le> weeks_to_release then
        [''Launch teaser campaign'', ''Build social media presence'',
         ''Secure media partnerships'']
      else if 4 \<le> weeks_to_release then
        [''Release official trailer'', ''Start paid social campaigns'', ''Begin PR tour'']
      else if 2 \<le> weeks_to_release then
        [''Intensify digital ads'', ''Launch ticket pre-sales'', ''Host premiere events'']
      else
        [''Final push - all channels'', ''Leverage reviews & testimonials'',
         ''Drive ticket sales''])"

text \<open>
  The inner loop over the phases: it parses the start date of every phase, and the last
  phase that has started stays.
\<close>

fun active_phase_from :: "phase option \<Rightarrow> phase list \<Rightarrow> datetime \<Rightarrow> error + phase option"
where
  "active_phase_from acc [] current = Inr acc"
| "active_phase_from acc (p # ps) current =
     (case strptime_text (start_date p) of
        Inl e \<Rightarrow> Inl e
      | Inr phase_start \<Rightarrow>
          active_phase_from (if phase_start \<le> current then Some p else acc) ps current)"

definition active_phase :: "phase list \<Rightarrow> datetime \<Rightarrow> error + phase option" where
  "active_phase phases current = active_phase_from None phases current"

definition timeline_entry :: "phase option \<Rightarrow> datetime \<Rightarrow> datetime \<Rightarrow> datetime \<Rightarrow> int
     \<Rightarrow> timeline_week" where
  "timeline_entry act release_date current week_end week =
     (let weeks_to_release = days_between release_date current div 7
      in \<lparr>week_no = week, week_start_date = strftime_ymd current,
           week_end_date = strftime_ymd week_end,
           week_phase = (case act of Some p \<Rightarrow> name p | None \<Rightarrow> ''Pre-campaign''),
           active_regions = (case act of Some p \<Rightarrow> regions p | None \<Rightarrow> []),
           key_activities = get_weekly_activities weeks_to_release,
           week_intensity = (case act of Some p \<Rightarrow> intensity p | None \<Rightarrow> ''Low'')\<rparr>)"

function timeline_loop ::
  "phase list \<Rightarrow> datetime \<Rightarrow> datetime \<Rightarrow> int \<Rightarrow> error + timeline_week list"
where
  "timeline_loop phases release_date current week =
     (if current < release_date then
        (case dt_add current (7 * day_us) of
           Inl e \<Rightarrow> Inl e
         | Inr next_start \<Rightarrow>
             (let week_end = min next_start release_date
              in case active_phase phases current of
                   Inl e \<Rightarrow> Inl e
                 | Inr act \<Rightarrow>
                     (case timeline_loop phases release_date week_end (week + 1) of
                        Inl e \<Rightarrow> Inl e
                      | Inr rest \<Rightarrow>
                          Inr (timeline_entry act release_date current week_end week # rest))))
      else Inr [])"
  by pat_completeness auto
termination
  by (relation "measure (\<lambda>(phases, release_date, current, week). nat (release_date - current))")
     (auto simp: dt_add_def day_us_def split: if_splits)

definition create_timeline :: "phase list \<Rightarrow> datetime \<Rightarrow> datetime
     \<Rightarrow> error + timeline_week list" where
  "create_timeline phases start release_date = timeline_loop phases release_date start 1"

section \<open>Milestones\<close>

record milestone_entry =
  date :: string
  milestone :: string
  description :: string

text \<open>
  The name of the last milestone starts, in the source file, with the four characters
  U+00F0, U+0178, U+017D and U+00AC, here the eight bytes of their UTF-8 encoding. The
  milestones are sorted by the text of their date, as strings compare.
\<close>

definition release_day_name :: string where
  "release_day_name =
     [CHR 0xC3, CHR 0xB0, CHR 0xC5, CHR 0xB8, CHR 0xC5, CHR 0xBD, CHR 0xC2, CHR 0xAC]
     @ '' RELEASE DAY''"

definition generate_milestones :: "datetime \<Rightarrow> datetime \<Rightarrow> error + milestone_entry list"
where
  "generate_milestones start release_date =
     (let m0 = [\<lparr>date = date_text (strftime_ymd start), milestone = ''Campaign Launch'',
                 description = ''Teaser release, social media kickoff''\<rparr>]
      in case minus_weeks release_date 4 of
           Inl e \<Rightarrow> Inl e
         | Inr trailer_date \<Rightarrow>
       (let m1 = (if start < trailer_date
                  then m0 @ [\<lparr>date = date_text (strftime_ymd trailer_date),
                               milestone = ''Official Trailer Release'',
                               description = ''Major media push, paid amplification''\<rparr>]
                  else m0)
        in case minus_weeks release_date 2 of
             Inl e \<Rightarrow> Inl e
           | Inr presale_date \<Rightarrow>
         (let m2 = (if start < presale_date
                    then m1 @ [\<lparr>date = date_text (strftime_ymd presale_date),
                                 milestone = ''Ticket Pre-Sales Open'',
                                 description = ''Drive early bookings, create urgency''\<rparr>]
                    else m1)
          in case minus_weeks release_date 1 of
               Inl e \<Rightarrow> Inl e
             | Inr premiere_date \<Rightarrow>
           (let m3 = (if start < premiere_date
                      then m2 @ [\<lparr>date = date_text (strftime_ymd premiere_date),
                                   milestone = ''World Premiere'',
                                   description =
                                     ''Red carpet event, press coverage, reviews''\<rparr>]
                      else m2);
                m4 = m3 @ [\<lparr>date = date_text (strftime_ymd release_date),
                             milestone = release_day_name,
                             description =
                               ''Full availability, maximize opening weekend''\<rparr>]
            in Inr (sort_key date m4)))))"

section \<open>The plan\<close>

text \<open>
  \<open>create_rollout_plan\<close>. Its \<open>ranked_regions\<close> are the ranking of the comparison
  (precomputed, or the scorer's); the release date is the text the caller gave. Of the
  result the channel lists, the recommendations and the rationale texts are left out.
  The signature is what \<open>_extract_movie_signature\<close> returned: that call, which raises on
  a profile whose genres, cast or directors do not have the shape it expects, is not part
  of the model, and neither is an override that is not a number. So \<open>Inr\<close> here says
  that the dates and the numbers let the plan through, not that no call of the source
  raises.
\<close>

record rollout_plan =
  release_date_text :: string
  campaign_start :: int
  plan_duration_weeks :: int
  plan_total_budget :: int
  target_regions :: nat
  phases :: "phase list"
  allocations :: "budget_allocation list"
  timeline :: "timeline_week list"
  key_milestones :: "milestone_entry list"
  plan_logic :: campaign_parameters

definition parse_release_date :: "pyenv \<Rightarrow> string \<Rightarrow> error + datetime" where
  "parse_release_date env release_date =
     (case strptime_ymd env release_date of
        Some d \<Rightarrow> Inr (midnight_of d)
      | None \<Rightarrow>
          (case timedelta_days 60 of
             Inl e \<Rightarrow> Inl e
           | Inr d \<Rightarrow> dt_add (now_fallback env) d))"

definition create_rollout_plan ::
  "pyenv \<Rightarrow> region_score list \<Rightarrow> string \<Rightarrow> rat option \<Rightarrow> int option
     \<Rightarrow> movie_profile option \<Rightarrow> movie_signature \<Rightarrow> error + rollout_plan"
where
  "create_rollout_plan env ranked_regions release_date budget_total weeks_override
       profile sig =
     (case parse_release_date env release_date of
        Inl e \<Rightarrow> Inl e
      | Inr release_dt \<Rightarrow>
     (case derive_campaign_parameters env
             (case profile of None \<Rightarrow> Map.empty | Some d \<Rightarrow> d)
             ranked_regions budget_total weeks_override release_dt of
        Inl e \<Rightarrow> Inl e
      | Inr params \<Rightarrow>
     (case minus_weeks release_dt (campaign_weeks params) of
        Inl e \<Rightarrow> Inl e
      | Inr start \<Rightarrow>
     (case create_phases ranked_regions start release_dt sig (campaign_weeks params) of
        Inl e \<Rightarrow> Inl e
      | Inr phs \<Rightarrow>
     (case create_timeline phs start release_dt of
        Inl e \<Rightarrow> Inl e
      | Inr weeks_list \<Rightarrow>
     (case generate_milestones start release_dt of
        Inl e \<Rightarrow> Inl e
      | Inr ms \<Rightarrow>
          Inr \<lparr>release_date_text = release_date,
               campaign_start = strftime_ymd start,
               plan_duration_weeks = campaign_weeks params,
               plan_total_budget = total_budget params,
               target_regions = length ranked_regions,
               phases = phs,
               allocations = allocate_budget ranked_regions (of_int (total_budget params)),
               timeline = weeks_list,
               key_milestones = ms,
               plan_logic = params\<rparr>))))))"

section \<open>Statements of the specification, in its own words\<close>

text \<open>
  The duration rule as the specification words it: a base from the gap to the release, three
  additions, a final clamp; an override is used as it is, from one week up.
\<close>

definition clamp :: "int \<Rightarrow> int \<Rightarrow> int \<Rightarrow> int" where
  "clamp lo hi x = max lo (min hi x)"

definition spec_campaign_weeks :: "int option \<Rightarrow> int \<Rightarrow> rat \<Rightarrow> nat \<Rightarrow> rat \<Rightarrow> int" where
  "spec_campaign_weeks override gap_weeks popularity tier_a_count production_budget =
     (case override of
        Some d \<Rightarrow> max 1 d
      | None \<Rightarrow>
          clamp 4 16
            ((if 0 < gap_weeks then clamp 4 16 gap_weeks else 6)
             + (if 70 \<le> popularity then 1 else 0)
             + (if 3 \<le> tier_a_count then 1 else 0)
             + (if 150000000 \<le> production_budget then 1 else 0)))"

text \<open>
  The budget split as the specification words it: every weight but the last becomes its
  rounded share of 100, the last takes the remainder.
\<close>

definition spec_percentages :: "int list \<Rightarrow> int list" where
  "spec_percentages ws =
     (if ws = [] then []
      else (let total = sum_list ws;
                heads = map (\<lambda>w. py_round (of_int w / of_int total * 100)) (butlast ws)
            in heads @ [100 - sum_list heads]))"

text \<open>
  The active phase as the specification words it: the last one, in the order of the phase
  list, of the phases that start on or before the day of the week's start.
\<close>

definition latest_started :: "phase list \<Rightarrow> datetime \<Rightarrow> phase option" where
  "latest_started ps current =
     (let started = filter (\<lambda>p. start_date p \<le> strftime_ymd current) ps
      in if started = [] then None else Some (last started))"

text \<open>A value that \<open>float()\<close> converts without overflow.\<close>

definition fits_double :: "pyval \<Rightarrow> bool" where
  "fits_double v = (case v of PInt i \<Rightarrow> \<bar>i\<bar> < 2 ^ 1024 - 2 ^ 970 | _ \<Rightarrow> True)"

definition profile_fits :: "movie_profile \<Rightarrow> bool" where
  "profile_fits profile =
     (fits_double (dict_get profile ''popularity'' PNone)
      \<and> fits_double (dict_get profile ''budget'' PNone))"

text \<open>A vote count whose quotient by 50000 fits a double.\<close>

definition votes_fit :: "pyenv \<Rightarrow> movie_profile \<Rightarrow> bool" where
  "votes_fit env profile =
     (case vote_count_of env profile of
        Inl e \<Rightarrow> True
      | Inr n \<Rightarrow> \<bar>(of_int n :: rat) / 50000\<bar> < 2 ^ 1024 - 2 ^ 970)"

text \<open>
  Dates for which the model returns a plan: the release lies before the end of the range
  of \<open>datetime\<close>, and the whole campaign (16 weeks at most when the duration is derived)
  and the trailer milestone four weeks ahead of the release lie in the year 1000 or later,
  where every date has a text of four year digits.
\<close>

definition dates_fit :: "int option \<Rightarrow> datetime \<Rightarrow> bool" where
  "dates_fit override_duration release_dt =
     (let w = (case override_duration of None \<Rightarrow> 16 | Some d \<Rightarrow> max 4 d)
      in 7 * w \<le> 999999999 \<and> (364877 + 7 * w) * day_us \<le> release_dt
         \<and> release_dt < datetime_end)"

section \<open>Example inputs\<close>

text \<open>
  A clock at 2024-04-01 10:00 (day 738976 after 0001-01-01), a parser that knows the
  release dates used below (2024-06-15 is day 739051, 1000-01-17 is day 364893), and the
  four regions of the example at the end of the source file, with two tier A markets, one
  B and one C.
\<close>

definition example_env :: pyenv where
  "example_env =
     \<lparr>now_fallback = 738976 * day_us + 36000000000,
      now_derive = 738976 * day_us + 36000000001,
      float_of_str = (\<lambda>s. None),
      int_of_str = (\<lambda>s. None),
      strptime_ymd = (\<lambda>s. if s = ''2024-06-15'' then Some 739051
                          else if s = ''1000-01-17'' then Some 364893
                          else if s = ''0001-01-01'' then Some 0 else None)\<rparr>"

definition example_sig :: movie_signature where
  "example_sig =
     \<lparr>title = ''This film'', primary_genre = ''Event'',
      genre_focus = ''cinematic spectacle'', hook = ''Fan-favorite moments'',
      lead = ''the ensemble cast'', tagline = [], audience_callout = ''fans''\<rparr>"

definition example_regions :: "region_score list" where
  "example_regions =
     [\<lparr>region = ''US'', total_score = 90, tier = A, suggested_budget_pct = 40,
       recommendation = ''Priority market''\<rparr>,
      \<lparr>region = ''GB'', total_score = 85, tier = A, suggested_budget_pct = 30,
       recommendation = ''Priority market''\<rparr>,
      \<lparr>region = ''IN'', total_score = 70, tier = B, suggested_budget_pct = 20,
       recommendation = ''Growth market''\<rparr>,
      \<lparr>region = ''BR'', total_score = 55, tier = C, suggested_budget_pct = 10,
       recommendation = ''Test market''\<rparr>]"




section \<open>Rounding\<close>

lemma py_round_lower: "of_int a \<le> x \<Longrightarrow> a \<le> py_round x"
proof -
  assume "of_int a \<le> x"
  then have "a \<le> \<lfloor>x\<rfloor>" by (simp add: le_floor_iff)
  then show ?thesis unfolding py_round_def Let_def by auto
qed

lemma py_round_upper: "x \<le> of_int b \<Longrightarrow> py_round x \<le> b"
proof -
  assume h: "x \<le> of_int b"
  have f: "\<lfloor>x\<rfloor> \<le> b" using floor_mono[OF h] by simp
  show ?thesis
  proof (cases "\<lfloor>x\<rfloor> = b")
    case True
    then have "x - of_int \<lfloor>x\<rfloor> \<le> 0" using h by simp
    then show ?thesis unfolding py_round_def Let_def using True by auto
  next
    case False
    then have "\<lfloor>x\<rfloor> + 1 \<le> b" using f by simp
    then show ?thesis unfolding py_round_def Let_def using f by auto
  qed
qed


lemma py_round_of_int: "py_round (of_int n) = n"
  unfolding py_round_def Let_def by simp

lemma py_round_mono: "x \<le> y \<Longrightarrow> py_round x \<le> py_round y"
proof -
  assume h: "x \<le> y"
  have fm: "\<lfloor>x\<rfloor> \<le> \<lfloor>y\<rfloor>" using floor_mono[OF h] .
  show ?thesis
  proof (cases "\<lfloor>x\<rfloor> = \<lfloor>y\<rfloor>")
    case True
    then have "x - of_int \<lfloor>x\<rfloor> \<le> y - of_int \<lfloor>y\<rfloor>" using h by simp
    then show ?thesis unfolding py_round_def Let_def using True by auto
  next
    case False
    then have "\<lfloor>x\<rfloor> + 1 \<le> \<lfloor>y\<rfloor>" using fm by simp
    moreover have "py_round x \<le> \<lfloor>x\<rfloor> + 1" unfolding py_round_def Let_def by auto
    moreover have "\<lfloor>y\<rfloor> \<le> py_round y" unfolding py_round_def Let_def by auto
    ultimately show ?thesis by linarith
  qed
qed

section \<open>Doubles\<close>

declare bit_length.simps [simp del]

lemma bit_length_upper: "n < 2 ^ bit_length n"
proof (induction n rule: bit_length.induct)
  case (1 n)
  show ?case
  proof (cases "n \<le> 0")
    case True
    then show ?thesis by (subst bit_length.simps) simp
  next
    case False
    have "n div 2 < 2 ^ bit_length (n div 2)" using 1 False by simp
    then have "n < 2 * 2 ^ bit_length (n div 2)" by linarith
    then show ?thesis using False by (subst bit_length.simps) simp
  qed
qed

lemma bit_length_pos: "0 < n \<Longrightarrow> bit_length n \<noteq> 0"
  by (subst bit_length.simps) simp

lemma bit_length_lower: "0 < n \<Longrightarrow> 2 ^ (bit_length n - 1) \<le> n"
proof (induction n rule: bit_length.induct)
  case (1 n)
  have bl: "bit_length n = Suc (bit_length (n div 2))"
    using 1(2) by (subst bit_length.simps) simp
  show ?case
  proof (cases "n div 2 \<le> 0")
    case True
    then have "bit_length (n div 2) = 0" by (subst bit_length.simps) simp
    then show ?thesis using bl 1(2) by simp
  next
    case False
    have "2 ^ (bit_length (n div 2) - 1) \<le> n div 2" using 1 False by simp
    moreover have "bit_length (n div 2) \<noteq> 0" using False by (intro bit_length_pos) simp
    ultimately have "2 ^ bit_length (n div 2) \<le> 2 * (n div 2)"
      by (cases "bit_length (n div 2)") simp_all
    then show ?thesis unfolding bl by simp
  qed
qed

lemma float_exponent_lower:
  assumes "x \<noteq> 0"
  shows "2 powi float_exponent x \<le> \<bar>x\<bar>"
proof (cases "1 \<le> \<bar>x\<bar>")
  case True
  define m where "m = \<lfloor>\<bar>x\<bar>\<rfloor>"
  have m1: "0 < m" unfolding m_def using True by (simp add: le_floor_iff)
  have mx: "of_int m \<le> \<bar>x\<bar>" unfolding m_def by (rule of_int_floor_le)
  have e: "float_exponent x = int (bit_length m - 1)"
    using bit_length_pos[OF m1] unfolding float_exponent_def m_def using True by simp
  have "(2::rat) powi float_exponent x = of_int (2 ^ (bit_length m - 1))"
    unfolding e by simp
  also have "\<dots> \<le> of_int m" using bit_length_lower[OF m1] by (simp only: of_int_le_iff)
  finally show ?thesis using mx by linarith
next
  case False
  define y where "y = 1 / \<bar>x\<bar>"
  have x0: "0 < \<bar>x\<bar>" using assms by simp
  have y1: "1 < y" unfolding y_def using False x0 by simp
  define k where "k = bit_length (\<lceil>y\<rceil> - 1)"
  have e: "float_exponent x = - int k"
    unfolding float_exponent_def k_def y_def using False by simp
  have "\<lceil>y\<rceil> - 1 < 2 ^ k" unfolding k_def by (rule bit_length_upper)
  then have "\<lceil>y\<rceil> \<le> 2 ^ k" by simp
  then have "y \<le> of_int (2 ^ k)" by (simp only: ceiling_le_iff)
  then have yk: "y \<le> 2 ^ k" by simp
  have "(2::rat) powi float_exponent x = 1 / 2 ^ k"
    unfolding e by (simp add: power_int_minus_divide)
  also have "\<dots> \<le> 1 / y" using yk y1 by (simp add: frac_le)
  also have "\<dots> = \<bar>x\<bar>" unfolding y_def by simp
  finally show ?thesis .
qed

lemma float_exponent_upper:
  assumes "x \<noteq> 0"
  shows "\<bar>x\<bar> < 2 powi (float_exponent x + 1)"
proof (cases "1 \<le> \<bar>x\<bar>")
  case True
  define m where "m = \<lfloor>\<bar>x\<bar>\<rfloor>"
  have m1: "0 < m" unfolding m_def using True by (simp add: le_floor_iff)
  have xm: "\<bar>x\<bar> < of_int m + 1" unfolding m_def by linarith
  have bl: "bit_length m \<noteq> 0" using m1 by (rule bit_length_pos)
  have e: "float_exponent x + 1 = int (bit_length m)"
    unfolding float_exponent_def m_def[symmetric] using True bl by simp
  have "m + 1 \<le> 2 ^ bit_length m" using bit_length_upper[of m] by simp
  then have "(of_int (m + 1) :: rat) \<le> of_int (2 ^ bit_length m)"
    by (simp only: of_int_le_iff)
  then have "(of_int m :: rat) + 1 \<le> 2 ^ bit_length m" by simp
  moreover have "(2::rat) powi (float_exponent x + 1) = 2 ^ bit_length m"
    unfolding e by simp
  ultimately show ?thesis using xm by linarith
next
  case False
  define y where "y = 1 / \<bar>x\<bar>"
  have x0: "0 < \<bar>x\<bar>" using assms by simp
  have y1: "1 < y" unfolding y_def using False x0 by simp
  define m where "m = \<lceil>y\<rceil> - 1"
  define k where "k = bit_length m"
  have e: "float_exponent x = - int k"
    unfolding float_exponent_def k_def m_def y_def using False by simp
  have m1: "0 < m" unfolding m_def using y1 by (simp add: less_ceiling_iff)
  have k1: "k \<noteq> 0" unfolding k_def using m1 by (rule bit_length_pos)
  have "2 ^ (k - 1) \<le> m" unfolding k_def by (rule bit_length_lower[OF m1])
  then have "(2::int) ^ (k - 1) < \<lceil>y\<rceil>" unfolding m_def by simp
  then have "of_int (2 ^ (k - 1)) < y" by (simp only: less_ceiling_iff)
  then have yk: "2 ^ (k - 1) < y" by simp
  have "\<bar>x\<bar> = 1 / y" unfolding y_def by simp
  also have "\<dots> < 1 / 2 ^ (k - 1)" using yk by (simp add: frac_less2)
  also have "\<dots> = (2::rat) powi (float_exponent x + 1)"
  proof -
    have "float_exponent x + 1 = - int (k - 1)" unfolding e using k1 by simp
    then show ?thesis by (simp add: power_int_minus_divide)
  qed
  finally show ?thesis .
qed

lemma fl_zero [simp]: "fl 0 = 0"
  by (simp add: fl_def)


lemma fl_nonneg: "0 \<le> x \<Longrightarrow> 0 \<le> fl x"
proof (cases "x = 0")
  case True
  then show ?thesis by simp
next
  case False
  assume "0 \<le> x"
  define q :: rat where "q = 2 powi (float_exponent x - 52)"
  have q0: "0 < q" unfolding q_def by simp
  have "of_int 0 \<le> x / q" using \<open>0 \<le> x\<close> q0 by simp
  then have "0 \<le> py_round (x / q)" by (rule py_round_lower)
  then show ?thesis unfolding fl_def q_def[symmetric] Let_def using False q0 by simp
qed

lemma power_int_two_mono: "a \<le> b \<Longrightarrow> (2::rat) powi a \<le> 2 powi b"
  by (rule power_int_increasing) simp_all

lemma fl_mono:
  assumes "0 \<le> x" and "x \<le> y"
  shows "fl x \<le> fl y"
proof (cases "x = 0")
  case True
  then show ?thesis using fl_nonneg[of y] assms by simp
next
  case False
  then have x0: "0 < x" using assms(1) by simp
  then have y0: "0 < y" using assms(2) by simp
  have yn: "y \<noteq> 0" using y0 by simp
  define ex where "ex = float_exponent x"
  define ey where "ey = float_exponent y"
  define qx :: rat where "qx = 2 powi (ex - 52)"
  define qy :: rat where "qy = 2 powi (ey - 52)"
  have qx0: "0 < qx" unfolding qx_def by simp
  have qy0: "0 < qy" unfolding qy_def by simp
  have fx: "fl x = of_int (py_round (x / qx)) * qx"
    unfolding fl_def qx_def ex_def Let_def using False by simp
  have fy: "fl y = of_int (py_round (y / qy)) * qy"
    unfolding fl_def qy_def ey_def Let_def using yn by simp
  have lx: "2 powi ex \<le> x" using float_exponent_lower[OF False] x0 unfolding ex_def by simp
  have ux: "x < 2 powi (ex + 1)" using float_exponent_upper[OF False] x0 unfolding ex_def by simp
  have ly: "2 powi ey \<le> y" using float_exponent_lower[OF yn] y0 unfolding ey_def by simp
  have uy: "y < 2 powi (ey + 1)" using float_exponent_upper[OF yn] y0 unfolding ey_def by simp
  have "(2::rat) powi ex < 2 powi (ey + 1)" using lx assms(2) uy by linarith
  then have "ex < ey + 1"
    using power_int_two_mono[of "ey + 1" ex] by (cases "ex < ey + 1") auto
  then have le: "ex \<le> ey" by simp
  show ?thesis
  proof (cases "ex = ey")
    case True
    then have q: "qx = qy" unfolding qx_def qy_def by simp
    have "x / qy \<le> y / qy" using assms(2) qy0 by (simp add: divide_right_mono)
    then have "py_round (x / qy) \<le> py_round (y / qy)" by (rule py_round_mono)
    then have "(of_int (py_round (x / qy)) :: rat) \<le> of_int (py_round (y / qy))" by simp
    then show ?thesis unfolding fx fy q using qy0 by (intro mult_right_mono) auto
  next
    case False
    then have lt: "ex + 1 \<le> ey" using le by simp
    have px: "(2::rat) powi (ex + 1) = 2 ^ 53 * qx"
    proof -
      have "ex + 1 = 53 + (ex - 52)" by simp
      then have "(2::rat) powi (ex + 1) = 2 powi 53 * 2 powi (ex - 52)"
        by (metis power_int_add zero_neq_numeral)
      then show ?thesis unfolding qx_def by simp
    qed
    have py: "(2::rat) powi ey = 2 ^ 52 * qy"
    proof -
      have "ey = 52 + (ey - 52)" by simp
      then have "(2::rat) powi ey = 2 powi 52 * 2 powi (ey - 52)"
        by (metis power_int_add zero_neq_numeral)
      then show ?thesis unfolding qy_def by simp
    qed
    have "x / qx \<le> 2 ^ 53" using ux px qx0 by (simp add: divide_le_eq)
    then have "x / qx \<le> of_int (2 ^ 53)" by simp
    then have "py_round (x / qx) \<le> 2 ^ 53" by (rule py_round_upper)
    then have "(of_int (py_round (x / qx)) :: rat) \<le> of_int (2 ^ 53)" by (simp only: of_int_le_iff)
    then have "of_int (py_round (x / qx)) * qx \<le> 2 ^ 53 * qx"
      using qx0 by (intro mult_right_mono) auto
    then have a: "fl x \<le> 2 powi (ex + 1)" unfolding fx px .
    have "2 ^ 52 \<le> y / qy" using ly py qy0 by (simp add: le_divide_eq)
    then have "of_int (2 ^ 52) \<le> y / qy" by simp
    then have "2 ^ 52 \<le> py_round (y / qy)" by (rule py_round_lower)
    then have "(of_int (2 ^ 52) :: rat) \<le> of_int (py_round (y / qy))" by (simp only: of_int_le_iff)
    then have "2 ^ 52 * qy \<le> of_int (py_round (y / qy)) * qy"
      using qy0 by (intro mult_right_mono) auto
    then have b: "2 powi ey \<le> fl y" unfolding fy py .
    show ?thesis using a b power_int_two_mono[OF lt] by linarith
  qed
qed

section \<open>The derived parameters\<close>

lemma round_budget_range:
  "250000 \<le> round_budget b \<and> round_budget b \<le> 20000000 \<and> 50000 dvd round_budget b"
proof -
  define c where "c = max 250000 (min b 20000000)"
  have c1: "of_int 5 \<le> c / 50000" and c2: "c / 50000 \<le> of_int 400"
    unfolding c_def by (auto simp: le_divide_eq divide_le_eq)
  have r1: "5 \<le> py_round (c / 50000)" using py_round_lower[OF c1] .
  have r2: "py_round (c / 50000) \<le> 400" using py_round_upper[OF c2] .
  have eq: "round_budget b = max 250000 (py_round (c / 50000) * 50000)"
    unfolding round_budget_def c_def Let_def ..
  show ?thesis unfolding eq using r1 r2 by auto
qed

lemma derive_weeks_range:
  "4 \<le> derive_weeks None g p n b \<and> derive_weeks None g p n b \<le> 16"
  unfolding derive_weeks_def Let_def by auto

lemma derive_weeks_ge1: "1 \<le> derive_weeks od g p n b"
  unfolding derive_weeks_def Let_def by (auto split: option.splits)

lemma derive_weeks_spec:
  "derive_weeks od g p n b = spec_campaign_weeks od g p n b"
  unfolding derive_weeks_def spec_campaign_weeks_def clamp_def Let_def
  by (auto split: option.splits)

lemma py_float_overflow:
  "fits_double v \<Longrightarrow> py_float env v \<noteq> Inl OverflowError"
  by (cases v) (auto simp: fits_double_def split: option.splits)

lemma py_int_overflow: "py_int env v \<noteq> Inl OverflowError"
  by (cases v) (auto split: option.splits)

lemma except_type_value_ok:
  "r \<noteq> Inl OverflowError \<Longrightarrow> \<exists>x. except_type_value r d = Inr x"
  unfolding except_type_value_def by (auto split: sum.splits error.splits)

lemma fits_double_or:
  "fits_double a \<Longrightarrow> fits_double b \<Longrightarrow> fits_double (py_or a b)"
  unfolding py_or_def by simp

lemma fits_double_get:
  "fits_double (dict_get profile k PNone) \<Longrightarrow> fits_double d \<Longrightarrow> fits_double (dict_get profile k d)"
  unfolding dict_get_def by (auto split: option.splits)

lemma popularity_ok:
  assumes "profile_fits profile"
  shows "\<exists>x. popularity_of env profile = Inr x"
proof -
  have "fits_double (py_or (dict_get profile ''popularity'' (PInt 45)) (PInt 45))"
  proof (rule fits_double_or)
    show "fits_double (dict_get profile ''popularity'' (PInt 45))"
      using assms unfolding profile_fits_def dict_get_def fits_double_def
      by (simp split: option.splits)
    show "fits_double (PInt 45)" by (simp add: fits_double_def)
  qed
  then show ?thesis unfolding popularity_of_def
    by (rule except_type_value_ok[OF py_float_overflow])
qed

lemma production_budget_ok:
  assumes "profile_fits profile"
  shows "\<exists>x. production_budget_of env profile = Inr x"
proof -
  have "fits_double (py_or (dict_get profile ''budget'' PNone) (PInt 0))"
    using assms unfolding profile_fits_def
    by (intro fits_double_or) (simp_all add: fits_double_def)
  then show ?thesis unfolding production_budget_of_def
    by (rule except_type_value_ok[OF py_float_overflow])
qed

lemma vote_count_ok: "\<exists>n. vote_count_of env profile = Inr n"
  unfolding vote_count_of_def by (rule except_type_value_ok[OF py_int_overflow])

lemma derive_budget_ok:
  assumes "votes_fit env profile"
  shows "\<exists>b. derive_budget env profile None pop pb na nb idx = Inr b"
proof -
  obtain n where n: "vote_count_of env profile = Inr n" using vote_count_ok by blast
  have "\<bar>(of_int n :: rat) / 50000\<bar> < 2 ^ 1024 - 2 ^ 970"
    using assms unfolding votes_fit_def n by simp
  then show ?thesis unfolding derive_budget_def Let_def n by simp
qed

lemma derive_budget_range:
  assumes "derive_budget env profile None pop pb na nb idx = Inr b"
  shows "250000 \<le> b \<and> b \<le> 20000000 \<and> 50000 dvd b"
proof -
  from assms obtain x where "b = round_budget x"
    unfolding derive_budget_def Let_def by (auto split: sum.splits if_splits)
  then show ?thesis using round_budget_range[of x] by simp
qed

lemma derive_ok:
  assumes "profile_fits profile" and "votes_fit env profile"
  shows "\<exists>p. derive_campaign_parameters env profile ranked None od rd = Inr p"
proof -
  obtain pop where 1: "popularity_of env profile = Inr pop"
    using popularity_ok[OF assms(1)] by blast
  obtain pb where 2: "production_budget_of env profile = Inr pb"
    using production_budget_ok[OF assms(1)] by blast
  obtain b where 3: "derive_budget env profile None pop pb (tier_count A ranked)
      (tier_count B ranked) (interest_index ranked) = Inr b"
    using derive_budget_ok[OF assms(2)] by blast
  show ?thesis unfolding derive_campaign_parameters_def Let_def by (simp add: 1 2 3)
qed

lemma derive_fields:
  assumes "derive_campaign_parameters env profile ranked ob od rd = Inr p"
  shows "\<exists>pop pb. popularity_of env profile = Inr pop \<and> production_budget_of env profile = Inr pb
     \<and> campaign_weeks p = derive_weeks od (release_gap_weeks rd (now_derive env)) pop
          (tier_count A ranked) pb
     \<and> derive_budget env profile ob pop pb (tier_count A ranked) (tier_count B ranked)
          (interest_index ranked) = Inr (total_budget p)"
  using assms unfolding derive_campaign_parameters_def Let_def
  by (auto split: sum.splits)

lemma derive_range:
  assumes "derive_campaign_parameters env profile ranked None None rd = Inr p"
  shows "4 \<le> campaign_weeks p \<and> campaign_weeks p \<le> 16 \<and> 250000 \<le> total_budget p
     \<and> total_budget p \<le> 20000000 \<and> 50000 dvd total_budget p"
proof -
  from derive_fields[OF assms] obtain pop pb where
    w: "campaign_weeks p = derive_weeks None (release_gap_weeks rd (now_derive env)) pop
          (tier_count A ranked) pb"
    and b: "derive_budget env profile None pop pb (tier_count A ranked) (tier_count B ranked)
          (interest_index ranked) = Inr (total_budget p)" by blast
  show ?thesis using derive_budget_range[OF b] derive_weeks_range w by simp
qed

lemma campaign_weeks_ge1:
  assumes "derive_campaign_parameters env profile ranked ob od rd = Inr p"
  shows "1 \<le> campaign_weeks p"
  using derive_fields[OF assms] derive_weeks_ge1 by auto

lemma popularity_falsy:
  assumes "\<not> truthy v"
  shows "popularity_of env (profile(''popularity'' \<mapsto> v)) = Inr 45"
  using assms unfolding popularity_of_def dict_get_def py_or_def except_type_value_def
  by simp



section \<open>Dates\<close>

lemma day_us_pos: "0 < day_us"
  by (simp add: day_us_def)

lemma strftime_shift: "strftime_ymd (t + k * day_us) = strftime_ymd t + k"
  unfolding strftime_ymd_def using day_us_pos by simp

lemma strftime_shift_minus: "strftime_ymd (t - k * day_us) = strftime_ymd t - k"
  using strftime_shift[of t "- k"] by simp

lemma midnight_le_iff: "midnight_of d \<le> t \<longleftrightarrow> d \<le> strftime_ymd t"
proof -
  have "d * day_us \<le> t \<longleftrightarrow> d \<le> t div day_us"
  proof
    assume "d * day_us \<le> t"
    then have "(d * day_us) div day_us \<le> t div day_us" using day_us_pos by (intro zdiv_mono1) auto
    then show "d \<le> t div day_us" using day_us_pos by simp
  next
    assume "d \<le> t div day_us"
    then have "d * day_us \<le> (t div day_us) * day_us" using day_us_pos by simp
    moreover have "(t div day_us) * day_us + t mod day_us = t" by simp
    moreover have "0 \<le> t mod day_us" using day_us_pos by simp
    ultimately show "d * day_us \<le> t" by linarith
  qed
  then show ?thesis by (simp add: midnight_of_def strftime_ymd_def)
qed

lemma days_between_shift: "days_between (s + k * day_us) s = k"
  unfolding days_between_def using day_us_pos by simp

lemma plus_weeks_eq:
  "plus_weeks t w =
     (if - 999999999 \<le> 7 * w \<and> 7 * w \<le> 999999999 \<and> 0 \<le> t + 7 * w * day_us
         \<and> t + 7 * w * day_us < datetime_end
      then Inr (t + 7 * w * day_us) else Inl OverflowError)"
  unfolding plus_weeks_def timedelta_weeks_def timedelta_days_def dt_add_def by simp

lemma minus_weeks_eq:
  "minus_weeks t w =
     (if - 999999999 \<le> 7 * w \<and> 7 * w \<le> 999999999 \<and> 0 \<le> t - 7 * w * day_us
         \<and> t - 7 * w * day_us < datetime_end
      then Inr (t - 7 * w * day_us) else Inl OverflowError)"
  unfolding minus_weeks_def timedelta_weeks_def timedelta_days_def dt_sub_def dt_add_def
  by simp

section \<open>The active phase of a week\<close>

lemma active_phase_from_eq:
  "active_phase_from acc ps c = Inr a \<Longrightarrow>
   a = (if filter (\<lambda>p. start_date p \<le> strftime_ymd c) ps = [] then acc
        else Some (last (filter (\<lambda>p. start_date p \<le> strftime_ymd c) ps)))"
proof (induction ps arbitrary: acc)
  case Nil
  then show ?case by simp
next
  case (Cons p ps)
  show ?case
  proof (cases "start_date p < 364877")
    case True
    then show ?thesis using Cons.prems by (simp add: strptime_text_def)
  next
    case False
    then have st: "strptime_text (start_date p) = Inr (midnight_of (start_date p))"
      by (simp add: strptime_text_def)
    have "active_phase_from (if midnight_of (start_date p) \<le> c then Some p else acc) ps c
         = Inr a"
      using Cons.prems unfolding active_phase_from.simps st by simp
    from Cons.IH[OF this] show ?thesis by (simp add: midnight_le_iff)
  qed
qed

lemma active_phase_eq: "active_phase ps c = Inr a \<Longrightarrow> a = latest_started ps c"
  unfolding active_phase_def latest_started_def Let_def by (rule active_phase_from_eq)

lemma active_phase_from_ok:
  "\<forall>p \<in> set ps. 364877 \<le> start_date p \<Longrightarrow> \<exists>a. active_phase_from acc ps c = Inr a"
  by (induction ps arbitrary: acc) (simp_all add: strptime_text_def)

lemma active_phase_ok:
  "\<forall>p \<in> set ps. 364877 \<le> start_date p \<Longrightarrow> \<exists>a. active_phase ps c = Inr a"
  unfolding active_phase_def by (rule active_phase_from_ok)

lemma sorted_le_last: "sorted xs \<Longrightarrow> x \<in> set xs \<Longrightarrow> (x::'a::linorder) \<le> last xs"
  by (induction xs) auto

lemma sorted_filter_last:
  assumes "sorted (map f ps)" and "p \<in> set (filter P ps)"
  shows "f p \<le> f (last (filter P ps))"
proof -
  have ne: "filter P ps \<noteq> []" using assms(2) by (auto simp: filter_empty_conv)
  have "sorted (map f (filter P ps))" using assms(1) by (rule sorted_filter)
  moreover have "f p \<in> set (map f (filter P ps))" using assms(2) by simp
  ultimately have "f p \<le> last (map f (filter P ps))" by (rule sorted_le_last)
  then show ?thesis using ne by (simp add: last_map)
qed

section \<open>The timeline loop\<close>

declare timeline_loop.simps [simp del]

lemma timeline_loop_step:
  assumes "s < r" and "s + 7 * day_us \<le> r" and "timeline_loop ps r s k = Inr ws"
  shows "\<exists>rest. timeline_loop ps r (s + 7 * day_us) (k + 1) = Inr rest
           \<and> ws = timeline_entry (latest_started ps s) r s (s + 7 * day_us) k # rest"
proof (cases "dt_add s (7 * day_us)")
  case (Inl e)
  have "timeline_loop ps r s k = Inl e"
    by (subst timeline_loop.simps) (simp add: assms(1) Inl)
  then show ?thesis using assms(3) by simp
next
  case (Inr nx)
  then have nx: "nx = s + 7 * day_us" by (simp add: dt_add_def split: if_splits)
  have m: "min nx r = s + 7 * day_us" using assms(2) nx by simp
  show ?thesis
  proof (cases "active_phase ps s")
    case (Inl e)
    have "timeline_loop ps r s k = Inl e"
      by (subst timeline_loop.simps) (simp add: assms(1) Inr m Inl Let_def)
    then show ?thesis using assms(3) by simp
  next
    case act: (Inr act)
    have a: "act = latest_started ps s" using act by (rule active_phase_eq)
    show ?thesis
    proof (cases "timeline_loop ps r (s + 7 * day_us) (k + 1)")
      case (Inl e)
      have "timeline_loop ps r s k = Inl e"
        by (subst timeline_loop.simps) (simp add: assms(1) Inr m act Inl Let_def)
      then show ?thesis using assms(3) by simp
    next
      case rr: (Inr rest)
      have "timeline_loop ps r s k = Inr (timeline_entry act r s (s + 7 * day_us) k # rest)"
        by (subst timeline_loop.simps) (simp add: assms(1) Inr m act rr Let_def)
      then show ?thesis using assms(3) rr a by simp
    qed
  qed
qed

lemma timeline_loop_shape:
  "r = s + 7 * int n * day_us \<Longrightarrow> timeline_loop ps r s k = Inr ws \<Longrightarrow>
   ws = map (\<lambda>i. timeline_entry (latest_started ps (s + 7 * int i * day_us)) r
                 (s + 7 * int i * day_us) (s + 7 * (int i + 1) * day_us)
                 (k + int i)) [0..<n]"
proof (induction n arbitrary: s k ws)
  case 0
  then show ?case by (subst (asm) timeline_loop.simps) simp
next
  case (Suc n)
  have lt: "s < r" using Suc.prems(1) day_us_pos by simp
  have le: "s + 7 * day_us \<le> r" using Suc.prems(1) day_us_pos by (simp add: algebra_simps)
  from timeline_loop_step[OF lt le Suc.prems(2)] obtain rest where
    rest: "timeline_loop ps r (s + 7 * day_us) (k + 1) = Inr rest"
    and ws: "ws = timeline_entry (latest_started ps s) r s (s + 7 * day_us) k # rest" by blast
  have r': "r = (s + 7 * day_us) + 7 * int n * day_us"
    using Suc.prems(1) by (simp add: algebra_simps)
  have IH: "rest = map (\<lambda>i. timeline_entry
       (latest_started ps (s + 7 * day_us + 7 * int i * day_us)) r
       (s + 7 * day_us + 7 * int i * day_us)
       (s + 7 * day_us + 7 * (int i + 1) * day_us) (k + 1 + int i)) [0..<n]"
    using Suc.IH[OF r' rest] .
  have shift: "map (\<lambda>i. timeline_entry (latest_started ps (s + 7 * int i * day_us)) r
                 (s + 7 * int i * day_us)
                 (s + 7 * (int i + 1) * day_us) (k + int i)) [Suc 0..<Suc n]
      = map (\<lambda>i. timeline_entry
       (latest_started ps (s + 7 * day_us + 7 * int i * day_us)) r
       (s + 7 * day_us + 7 * int i * day_us)
       (s + 7 * day_us + 7 * (int i + 1) * day_us) (k + 1 + int i)) [0..<n]"
    unfolding map_Suc_upt[symmetric] map_map comp_def
    by (rule map_cong[OF refl]) (simp add: algebra_simps)
  have "[0..<Suc n] = 0 # [Suc 0..<Suc n]" by (rule upt_conv_Cons) simp
  then have "map (\<lambda>i. timeline_entry (latest_started ps (s + 7 * int i * day_us)) r
                 (s + 7 * int i * day_us)
                 (s + 7 * (int i + 1) * day_us) (k + int i)) [0..<Suc n]
      = timeline_entry (latest_started ps s) r s (s + 7 * day_us) k # rest"
    unfolding IH shift[symmetric] by simp
  then show ?case using ws by simp
qed

lemma timeline_loop_ok:
  "r = s + 7 * int n * day_us \<Longrightarrow> 0 \<le> s \<Longrightarrow> r < datetime_end \<Longrightarrow>
   \<forall>p \<in> set ps. 364877 \<le> start_date p \<Longrightarrow>
   \<exists>ws. timeline_loop ps r s k = Inr ws"
proof (induction n arbitrary: s k)
  case 0
  then show ?case by (subst timeline_loop.simps) simp
next
  case (Suc n)
  have lt: "s < r" using Suc.prems(1) day_us_pos by simp
  have le: "s + 7 * day_us \<le> r" using Suc.prems(1) day_us_pos by (simp add: algebra_simps)
  have r': "r = (s + 7 * day_us) + 7 * int n * day_us"
    using Suc.prems(1) by (simp add: algebra_simps)
  have s': "0 \<le> s + 7 * day_us" using Suc.prems(2) day_us_pos by simp
  obtain rest where rest: "timeline_loop ps r (s + 7 * day_us) (k + 1) = Inr rest"
    using Suc.IH[OF r' s' Suc.prems(3) Suc.prems(4)] by blast
  obtain act where act: "active_phase ps s = Inr act"
    using active_phase_ok[OF Suc.prems(4)] by blast
  have add: "dt_add s (7 * day_us) = Inr (s + 7 * day_us)"
    using s' le Suc.prems(3) by (simp add: dt_add_def)
  show ?case
    by (subst timeline_loop.simps) (simp add: lt add min_absorb1[OF le] act rest Let_def)
qed

section \<open>Phases\<close>

lemma offset_weeks_bounds:
  "1 \<le> tw \<Longrightarrow> 0 \<le> mw \<Longrightarrow> 0 \<le> offset_weeks tw m mw \<and> offset_weeks tw m mw \<le> tw - 1"
  unfolding offset_weeks_def by auto

lemma offset_b_le_c:
  assumes "1 \<le> tw"
  shows "offset_weeks tw (35 / 100) 1 \<le> offset_weeks tw (65 / 100) 2"
proof -
  have t0: "0 \<le> fl (of_int tw)" using assms by (intro fl_nonneg) simp
  have m0: "0 \<le> fl (35 / 100)" by (intro fl_nonneg) simp
  have m: "fl (35 / 100) \<le> fl (65 / 100)" by (intro fl_mono) simp_all
  have "fl (of_int tw) * fl (35 / 100) \<le> fl (of_int tw) * fl (65 / 100)"
    using t0 m by (rule mult_left_mono[rotated])
  moreover have "0 \<le> fl (of_int tw) * fl (35 / 100)" using t0 m0 by simp
  ultimately have "fl (fl (of_int tw) * fl (35 / 100)) \<le> fl (fl (of_int tw) * fl (65 / 100))"
    by (intro fl_mono)
  from py_round_mono[OF this] show ?thesis
    using assms unfolding offset_weeks_def by auto
qed

lemma later_phase_shape:
  assumes "s < r" and "s + 7 * off * day_us < r"
    and "later_phase ps rs s r off nm it pct hk = Inr ps'"
  shows "ps' = ps @ (if rs \<noteq> [] then
            [\<lparr>phase_no = length ps + 1, name = nm,
              start_date = strftime_ymd (s + 7 * off * day_us),
              duration_weeks = phase_duration r (s + 7 * off * day_us),
              regions = map region rs, intensity = it,
              budget_percentage = pct, movie_hook = hk\<rparr>] else [])"
proof (cases "rs = []")
  case True
  then show ?thesis using assms(3) by (simp add: later_phase_def)
next
  case False
  show ?thesis
  proof (cases "plus_weeks s off")
    case (Inl e)
    then show ?thesis using assms(1,3) False by (simp add: later_phase_def)
  next
    case (Inr sh)
    then have sh: "sh = s + 7 * off * day_us"
      by (simp add: plus_weeks_eq split: if_splits)
    have m: "min r sh = s + 7 * off * day_us" using assms(2) sh by simp
    show ?thesis using assms(1,2,3) False Inr
      by (simp add: later_phase_def Let_def m)
  qed
qed

lemma later_phase_ok:
  assumes "s < r" and "s + 7 * off * day_us < r" and "0 \<le> s" and "r \<le> datetime_end"
    and "0 \<le> off" and "7 * off \<le> 999999999"
  shows "\<exists>ps'. later_phase ps rs s r off nm it pct hk = Inr ps'"
proof -
  have "0 \<le> 7 * off * day_us" using assms(5) day_us_pos by simp
  then have "plus_weeks s off = Inr (s + 7 * off * day_us)"
    using assms by (simp add: plus_weeks_eq)
  then show ?thesis using assms(2) by (simp add: later_phase_def Let_def)
qed

lemma create_phases_shape:
  assumes r: "r = s + 7 * w * day_us" and w: "1 \<le> w"
    and cp: "create_phases ranked s r sig w = Inr phs"
  shows "\<exists>pa pb pc oa ob oc. phs = pa @ pb @ pc
     \<and> oa = 0 \<and> ob = offset_weeks w (35 / 100) 1 \<and> oc = offset_weeks w (65 / 100) 2
     \<and> pa = (if tier_regions A ranked \<noteq> [] then
            [\<lparr>phase_no = 1, name = primary_genre sig @ '' Fan Ignition'',
              start_date = strftime_ymd s,
              duration_weeks = phase_duration r s,
              regions = map region (tier_regions A ranked), intensity = ''High'',
              budget_percentage = pct_get (normalized_pct ranked) A,
              movie_hook = hook_text sig\<rparr>] else [])
     \<and> pb = (if tier_regions B ranked \<noteq> [] then
            [\<lparr>phase_no = length pa + 1, name = ''Social Proof Expansion'',
              start_date = strftime_ymd (s + 7 * ob * day_us),
              duration_weeks = phase_duration r (s + 7 * ob * day_us),
              regions = map region (tier_regions B ranked), intensity = ''Medium'',
              budget_percentage = pct_get (normalized_pct ranked) B,
              movie_hook = ''Localized '' @ genre_focus sig\<rparr>] else [])
     \<and> pc = (if tier_regions C ranked \<noteq> [] then
            [\<lparr>phase_no = length (pa @ pb) + 1, name = ''Long-tail Sustain & Emerging Markets'',
              start_date = strftime_ymd (s + 7 * oc * day_us),
              duration_weeks = phase_duration r (s + 7 * oc * day_us),
              regions = map region (tier_regions C ranked), intensity = ''Low'',
              budget_percentage = pct_get (normalized_pct ranked) C,
              movie_hook = ''Community-driven '' @ title sig\<rparr>] else [])"
proof (cases "tier_regions A ranked = [] \<and> tier_regions B ranked = [] \<and> tier_regions C ranked = []")
  case True
  then show ?thesis using cp by (simp add: create_phases_def)
next
  case False
  define ob where "ob = offset_weeks w (35 / 100) 1"
  define oc where "oc = offset_weeks w (65 / 100) 2"
  define pa where "pa = (if tier_regions A ranked \<noteq> [] then
            [\<lparr>phase_no = 1, name = primary_genre sig @ '' Fan Ignition'',
              start_date = strftime_ymd s,
              duration_weeks = phase_duration r s,
              regions = map region (tier_regions A ranked), intensity = ''High'',
              budget_percentage = pct_get (normalized_pct ranked) A,
              movie_hook = hook_text sig\<rparr>] else [])"
  have mw: "max 1 w = w" using w by simp
  have sr: "s < r" using r w day_us_pos by simp
  have bb: "0 \<le> ob \<and> ob \<le> w - 1" unfolding ob_def using offset_weeks_bounds[OF w] by simp
  have cb: "0 \<le> oc \<and> oc \<le> w - 1" unfolding oc_def using offset_weeks_bounds[OF w] by simp
  have "ob < w" using bb by simp
  then have "7 * ob * day_us < 7 * w * day_us" using day_us_pos by simp
  then have b_lt: "s + 7 * ob * day_us < r" using r by simp
  have "oc < w" using cb by simp
  then have "7 * oc * day_us < 7 * w * day_us" using day_us_pos by simp
  then have c_lt: "s + 7 * oc * day_us < r" using r by simp
  from cp False obtain p2 where
    p2: "later_phase pa (tier_regions B ranked) s r ob ''Social Proof Expansion'' ''Medium''
           (pct_get (normalized_pct ranked) B) (''Localized '' @ genre_focus sig) = Inr p2"
    and p3: "later_phase p2 (tier_regions C ranked) s r oc
           ''Long-tail Sustain & Emerging Markets'' ''Low''
           (pct_get (normalized_pct ranked) C) (''Community-driven '' @ title sig) = Inr phs"
    unfolding create_phases_def Let_def mw pa_def ob_def oc_def
    by (simp split: sum.splits if_splits)
  note s2 = later_phase_shape[OF sr b_lt p2]
  note s3 = later_phase_shape[OF sr c_lt p3]
  show ?thesis
    apply (rule exI[of _ pa])
    apply (rule exI[of _ "if tier_regions B ranked \<noteq> [] then
            [\<lparr>phase_no = length pa + 1, name = ''Social Proof Expansion'',
              start_date = strftime_ymd (s + 7 * ob * day_us),
              duration_weeks = phase_duration r (s + 7 * ob * day_us),
              regions = map region (tier_regions B ranked), intensity = ''Medium'',
              budget_percentage = pct_get (normalized_pct ranked) B,
              movie_hook = ''Localized '' @ genre_focus sig\<rparr>] else []"])
    apply (rule exI[of _ "if tier_regions C ranked \<noteq> [] then
            [\<lparr>phase_no = length p2 + 1, name = ''Long-tail Sustain & Emerging Markets'',
              start_date = strftime_ymd (s + 7 * oc * day_us),
              duration_weeks = phase_duration r (s + 7 * oc * day_us),
              regions = map region (tier_regions C ranked), intensity = ''Low'',
              budget_percentage = pct_get (normalized_pct ranked) C,
              movie_hook = ''Community-driven '' @ title sig\<rparr>] else []"])
    apply (rule exI[of _ 0])
    apply (rule exI[of _ ob])
    apply (rule exI[of _ oc])
    unfolding s3 s2 ob_def[symmetric] oc_def[symmetric] pa_def[symmetric]
    apply simp
    done
qed

lemma create_phases_ok:
  assumes r: "r = s + 7 * w * day_us" and w: "1 \<le> w" and s0: "0 \<le> s"
    and re: "r \<le> datetime_end" and wb: "7 * w \<le> 999999999"
  shows "\<exists>phs. create_phases ranked s r sig w = Inr phs"
proof -
  define ob where "ob = offset_weeks w (35 / 100) 1"
  define oc where "oc = offset_weeks w (65 / 100) 2"
  have mw: "max 1 w = w" using w by simp
  have sr: "s < r" using r w day_us_pos by simp
  have bb: "0 \<le> ob \<and> ob \<le> w - 1" unfolding ob_def using offset_weeks_bounds[OF w] by simp
  have cb: "0 \<le> oc \<and> oc \<le> w - 1" unfolding oc_def using offset_weeks_bounds[OF w] by simp
  have "ob < w" using bb by simp
  then have "7 * ob * day_us < 7 * w * day_us" using day_us_pos by simp
  then have b_lt: "s + 7 * ob * day_us < r" using r by simp
  have "oc < w" using cb by simp
  then have "7 * oc * day_us < 7 * w * day_us" using day_us_pos by simp
  then have c_lt: "s + 7 * oc * day_us < r" using r by simp
  have b7: "7 * ob \<le> 999999999" and c7: "7 * oc \<le> 999999999" using bb cb wb by auto
  have L: "\<And>ps rs off nm it pct hk. off = ob \<or> off = oc \<Longrightarrow>
     \<exists>ps'. later_phase ps rs s r off nm it pct hk = Inr ps'"
    using later_phase_ok[OF sr b_lt s0 re _ b7] later_phase_ok[OF sr c_lt s0 re _ c7] bb cb
    by blast
  show ?thesis
  proof (cases "tier_regions A ranked = [] \<and> tier_regions B ranked = [] \<and> tier_regions C ranked = []")
    case True
    then show ?thesis by (simp add: create_phases_def)
  next
    case False
    define pa where "pa = (if tier_regions A ranked \<noteq> [] then
            [\<lparr>phase_no = 1, name = primary_genre sig @ '' Fan Ignition'',
              start_date = strftime_ymd s,
              duration_weeks = phase_duration r s,
              regions = map region (tier_regions A ranked), intensity = ''High'',
              budget_percentage = pct_get (normalized_pct ranked) A,
              movie_hook = hook_text sig\<rparr>] else [])"
    obtain p2 where
      p2: "later_phase pa (tier_regions B ranked) s r ob ''Social Proof Expansion'' ''Medium''
           (pct_get (normalized_pct ranked) B) (''Localized '' @ genre_focus sig) = Inr p2"
      using L[of ob] by blast
    obtain p3 where
      p3: "later_phase p2 (tier_regions C ranked) s r oc
           ''Long-tail Sustain & Emerging Markets'' ''Low''
           (pct_get (normalized_pct ranked) C) (''Community-driven '' @ title sig) = Inr p3"
      using L[of oc] by blast
    show ?thesis using False p2 p3
      unfolding create_phases_def Let_def mw pa_def ob_def oc_def by simp
  qed
qed

lemma strftime_mono: "a \<le> b \<Longrightarrow> strftime_ymd a \<le> strftime_ymd b"
  unfolding strftime_ymd_def using day_us_pos by (intro zdiv_mono1) auto

lemma phases_properties:
  assumes r: "r = s + 7 * w * day_us" and w: "1 \<le> w"
    and cp: "create_phases ranked s r sig w = Inr phs"
  shows "map regions phs =
           filter (\<lambda>x. x \<noteq> []) (map (\<lambda>t. map region (tier_regions t ranked)) [A, B, C])"
    and "map budget_percentage phs =
           map (pct_get (normalized_pct ranked))
               (filter (\<lambda>t. tier_regions t ranked \<noteq> []) [A, B, C])"
    and "sorted (map start_date phs)"
    and "\<forall>p \<in> set phs. strftime_ymd s \<le> start_date p"
proof -
  from create_phases_shape[OF r w cp] obtain pa pb pc ob oc where
    phs: "phs = pa @ pb @ pc"
    and ob: "ob = offset_weeks w (35 / 100) 1" and oc: "oc = offset_weeks w (65 / 100) 2"
    and pa: "pa = (if tier_regions A ranked \<noteq> [] then
            [\<lparr>phase_no = 1, name = primary_genre sig @ '' Fan Ignition'',
              start_date = strftime_ymd s,
              duration_weeks = phase_duration r s,
              regions = map region (tier_regions A ranked), intensity = ''High'',
              budget_percentage = pct_get (normalized_pct ranked) A,
              movie_hook = hook_text sig\<rparr>] else [])"
    and pb: "pb = (if tier_regions B ranked \<noteq> [] then
            [\<lparr>phase_no = length pa + 1, name = ''Social Proof Expansion'',
              start_date = strftime_ymd (s + 7 * ob * day_us),
              duration_weeks = phase_duration r (s + 7 * ob * day_us),
              regions = map region (tier_regions B ranked), intensity = ''Medium'',
              budget_percentage = pct_get (normalized_pct ranked) B,
              movie_hook = ''Localized '' @ genre_focus sig\<rparr>] else [])"
    and pc: "pc = (if tier_regions C ranked \<noteq> [] then
            [\<lparr>phase_no = length (pa @ pb) + 1, name = ''Long-tail Sustain & Emerging Markets'',
              start_date = strftime_ymd (s + 7 * oc * day_us),
              duration_weeks = phase_duration r (s + 7 * oc * day_us),
              regions = map region (tier_regions C ranked), intensity = ''Low'',
              budget_percentage = pct_get (normalized_pct ranked) C,
              movie_hook = ''Community-driven '' @ title sig\<rparr>] else [])"
    by blast
  have bb: "0 \<le> ob" unfolding ob using offset_weeks_bounds[OF w] by simp
  have bc: "ob \<le> oc" unfolding ob oc using offset_b_le_c[OF w] .
  have d0: "strftime_ymd (s + 7 * ob * day_us) = strftime_ymd s + 7 * ob"
    using strftime_shift[of s "7 * ob"] by simp
  have d1: "strftime_ymd (s + 7 * oc * day_us) = strftime_ymd s + 7 * oc"
    using strftime_shift[of s "7 * oc"] by simp
  show "map regions phs =
           filter (\<lambda>x. x \<noteq> []) (map (\<lambda>t. map region (tier_regions t ranked)) [A, B, C])"
    unfolding phs pa pb pc by simp
  show "map budget_percentage phs =
           map (pct_get (normalized_pct ranked))
               (filter (\<lambda>t. tier_regions t ranked \<noteq> []) [A, B, C])"
    unfolding phs pa pb pc by simp
  show "sorted (map start_date phs)"
    unfolding phs pa pb pc d0 d1 using bb bc by simp
  show "\<forall>p \<in> set phs. strftime_ymd s \<le> start_date p"
    unfolding phs pa pb pc d0 d1 using bb bc by simp
qed



section \<open>The budget split\<close>

lemma weight_map_keys:
  "map fst (weight_map ranked) = filter (\<lambda>t. tier_regions t ranked \<noteq> []) [A, B, C]"
  unfolding weight_map_def by simp

lemma tier_weight_pos: "0 < tier_weight t n"
  unfolding tier_weight_def by (cases t) auto

lemma weight_map_pos: "\<forall>w \<in> set (map snd (weight_map ranked)). 0 < w"
  unfolding weight_map_def using tier_weight_pos by auto

lemma sum_list_pos_int: "xs \<noteq> [] \<Longrightarrow> \<forall>x \<in> set xs. (0::int) < x \<Longrightarrow> 0 < sum_list xs"
  by (induction xs) (auto simp: add_pos_nonneg sum_list_nonneg less_imp_le)

lemma normalize_pct_fst: "map fst (normalize_pct wm T run) = map fst wm"
  by (induction wm T run rule: normalize_pct.induct) (simp_all add: Let_def)

lemma normalize_pct_snd:
  "wm \<noteq> [] \<Longrightarrow> map snd (normalize_pct wm T run) =
     map (\<lambda>w. py_round (of_int w / of_int T * 100)) (butlast (map snd wm))
     @ [100 - run - sum_list (map (\<lambda>w. py_round (of_int w / of_int T * 100))
                               (butlast (map snd wm)))]"
proof (induction wm T run rule: normalize_pct.induct)
  case (1 T run)
  then show ?case by simp
next
  case (2 k w rest T run)
  show ?case
  proof (cases "rest = []")
    case True
    then show ?thesis by simp
  next
    case False
    then show ?thesis using 2 by (simp add: Let_def)
  qed
qed

lemma normalized_pct_spec:
  "map snd (normalized_pct ranked) = spec_percentages (map snd (weight_map ranked))"
proof (cases "weight_map ranked = []")
  case True
  then show ?thesis by (simp add: normalized_pct_def spec_percentages_def)
next
  case False
  then have "0 < sum_list (map snd (weight_map ranked))"
    using sum_list_pos_int[OF _ weight_map_pos[of ranked]] by simp
  then have T: "(if sum_list (map snd (weight_map ranked)) \<noteq> 0
                 then sum_list (map snd (weight_map ranked)) else 1)
               = sum_list (map snd (weight_map ranked))" by simp
  show ?thesis
    unfolding normalized_pct_def Let_def T normalize_pct_snd[OF False] spec_percentages_def
    using False by simp
qed

lemma spec_percentages_sum: "ws \<noteq> [] \<Longrightarrow> sum_list (spec_percentages ws) = 100"
  unfolding spec_percentages_def by (simp add: Let_def)

lemma pct_get_keys:
  "distinct (map fst xs) \<Longrightarrow> map (pct_get xs) (map fst xs) = map snd xs"
proof (induction xs)
  case Nil
  then show ?case by simp
next
  case (Cons x xs)
  have "\<forall>k \<in> set (map fst xs). pct_get (x # xs) k = pct_get xs k"
    using Cons.prems by (cases x) (auto simp: pct_get_def)
  then have "map (pct_get (x # xs)) (map fst xs) = map (pct_get xs) (map fst xs)"
    by (intro map_cong) auto
  then show ?case using Cons by (cases x) (simp add: pct_get_def)
qed

lemma phases_percentages:
  assumes r: "r = s + 7 * w * day_us" and w: "1 \<le> w"
    and cp: "create_phases ranked s r sig w = Inr phs"
  shows "map budget_percentage phs = spec_percentages (map snd (weight_map ranked))"
proof -
  have d: "distinct (map fst (normalized_pct ranked))"
    unfolding normalized_pct_def Let_def normalize_pct_fst weight_map_keys by simp
  have k: "map fst (normalized_pct ranked)
             = filter (\<lambda>t. tier_regions t ranked \<noteq> []) [A, B, C]"
    unfolding normalized_pct_def Let_def normalize_pct_fst weight_map_keys ..
  show ?thesis
    unfolding phases_properties(2)[OF r w cp] k[symmetric] pct_get_keys[OF d]
    by (rule normalized_pct_spec)
qed

lemma ranked_nonempty_weights:
  assumes "ranked \<noteq> []"
  shows "weight_map ranked \<noteq> []"
proof -
  obtain x xs where "ranked = x # xs" using assms by (cases ranked) auto
  then have "tier_regions (tier x) ranked \<noteq> []" by (simp add: tier_regions_def)
  then have "filter (\<lambda>t. tier_regions t ranked \<noteq> []) [A, B, C] \<noteq> []"
    by (cases "tier x") auto
  then show ?thesis using weight_map_keys[of ranked] by (metis list.map_disc_iff)
qed

section \<open>Milestones\<close>

lemma generate_milestones_ok:
  assumes "28 * day_us \<le> r" and "r < datetime_end"
  shows "\<exists>ms. generate_milestones s r = Inr ms"
proof -
  have m4: "minus_weeks r 4 = Inr (r - 28 * day_us)"
    and m2: "minus_weeks r 2 = Inr (r - 14 * day_us)"
    and m1: "minus_weeks r 1 = Inr (r - 7 * day_us)"
    using assms day_us_pos by (simp_all add: minus_weeks_eq)
  show ?thesis unfolding generate_milestones_def Let_def m1 m2 m4 by simp
qed

section \<open>The parts of a plan\<close>

lemma plan_parts:
  assumes "create_rollout_plan env ranked rd ob od prof sig = Inr pl"
  shows "\<exists>r params s phs ws ms.
      parse_release_date env rd = Inr r
    \<and> derive_campaign_parameters env (case prof of None \<Rightarrow> Map.empty | Some d \<Rightarrow> d)
          ranked ob od r = Inr params
    \<and> minus_weeks r (campaign_weeks params) = Inr s
    \<and> create_phases ranked s r sig (campaign_weeks params) = Inr phs
    \<and> create_timeline phs s r = Inr ws
    \<and> generate_milestones s r = Inr ms
    \<and> pl = \<lparr>release_date_text = rd, campaign_start = strftime_ymd s,
             plan_duration_weeks = campaign_weeks params,
             plan_total_budget = total_budget params,
             target_regions = length ranked, phases = phs,
             allocations = allocate_budget ranked (of_int (total_budget params)),
             timeline = ws, key_milestones = ms, plan_logic = params\<rparr>"
proof (cases "parse_release_date env rd")
  case (Inl e)
  then show ?thesis using assms by (simp add: create_rollout_plan_def)
next
  case r: (Inr r)
  show ?thesis
  proof (cases "derive_campaign_parameters env (case prof of None \<Rightarrow> Map.empty | Some d \<Rightarrow> d)
          ranked ob od r")
    case (Inl e)
    then show ?thesis using assms r by (simp add: create_rollout_plan_def)
  next
    case p: (Inr params)
    show ?thesis
    proof (cases "minus_weeks r (campaign_weeks params)")
      case (Inl e)
      then show ?thesis using assms r p by (simp add: create_rollout_plan_def)
    next
      case s: (Inr s)
      show ?thesis
      proof (cases "create_phases ranked s r sig (campaign_weeks params)")
        case (Inl e)
        then show ?thesis using assms r p s by (simp add: create_rollout_plan_def)
      next
        case ph: (Inr phs)
        show ?thesis
        proof (cases "create_timeline phs s r")
          case (Inl e)
          then show ?thesis using assms r p s ph by (simp add: create_rollout_plan_def)
        next
          case ws: (Inr ws)
          show ?thesis
          proof (cases "generate_milestones s r")
            case (Inl e)
            then show ?thesis using assms r p s ph ws by (simp add: create_rollout_plan_def)
          next
            case ms: (Inr ms)
            have "pl = \<lparr>release_date_text = rd, campaign_start = strftime_ymd s,
               plan_duration_weeks = campaign_weeks params,
               plan_total_budget = total_budget params,
               target_regions = length ranked, phases = phs,
               allocations = allocate_budget ranked (of_int (total_budget params)),
               timeline = ws, key_milestones = ms, plan_logic = params\<rparr>"
              using assms r p s ph ws ms by (simp add: create_rollout_plan_def)
            then show ?thesis using r p s ph ws ms by simp
          qed
        qed
      qed
    qed
  qed
qed

lemma minus_weeks_start:
  assumes "minus_weeks r w = Inr s"
  shows "r = s + 7 * w * day_us \<and> 0 \<le> s \<and> s < datetime_end \<and> 7 * w \<le> 999999999"
  using assms by (simp add: minus_weeks_eq split: if_splits)

lemma create_phases_empty: "create_phases [] s r sig w = Inr []"
  by (simp add: create_phases_def tier_regions_def)

lemma plan_ok:
  assumes pr: "parse_release_date env rd = Inr r"
    and dp: "derive_campaign_parameters env (case prof of None \<Rightarrow> Map.empty | Some d \<Rightarrow> d)
          ranked ob od r = Inr params"
    and re: "r < datetime_end"
    and wk: "7 * campaign_weeks params \<le> 999999999"
    and st: "7 * max 4 (campaign_weeks params) * day_us \<le> r"
    and yr: "ranked = [] \<or> 364877 * day_us \<le> r - 7 * campaign_weeks params * day_us"
  shows "\<exists>pl. create_rollout_plan env ranked rd ob od prof sig = Inr pl"
proof -
  define w where "w = campaign_weeks params"
  define s where "s = r - 7 * w * day_us"
  have w1: "1 \<le> w" unfolding w_def using campaign_weeks_ge1[OF dp] .
  have "7 * w * day_us \<le> 7 * max 4 w * day_us" using day_us_pos by simp
  then have s0: "0 \<le> s" unfolding s_def using st w_def by simp
  have "0 < 7 * w * day_us" using w1 day_us_pos by simp
  then have lt: "s < r" unfolding s_def by simp
  have se: "s < datetime_end" using lt re by simp
  have mw: "minus_weeks r w = Inr s"
    using s0 se w1 wk unfolding minus_weeks_eq s_def[symmetric] w_def[symmetric] by simp
  have r: "r = s + 7 * w * day_us" unfolding s_def by simp
  obtain phs where ph: "create_phases ranked s r sig w = Inr phs"
    using create_phases_ok[OF r w1 s0 _ ] re wk w_def by fastforce
  have yrs: "\<forall>p \<in> set phs. 364877 \<le> start_date p"
  proof (cases "ranked = []")
    case True
    then have "phs = []" using ph create_phases_empty by simp
    then show ?thesis by simp
  next
    case False
    then have "midnight_of 364877 \<le> s"
      using yr unfolding s_def w_def midnight_of_def by simp
    then have "364877 \<le> strftime_ymd s" by (simp only: midnight_le_iff)
    then show ?thesis using phases_properties(4)[OF r w1 ph] by fastforce
  qed
  have rn: "r = s + 7 * int (nat w) * day_us" using r w1 by simp
  obtain ws where ws: "create_timeline phs s r = Inr ws"
    unfolding create_timeline_def using timeline_loop_ok[OF rn s0 re yrs] by blast
  have "4 * (7 * day_us) \<le> max 4 w * (7 * day_us)"
    using day_us_pos by (intro mult_right_mono) auto
  then have "28 * day_us \<le> r" using st unfolding w_def by linarith
  then obtain ms where ms: "generate_milestones s r = Inr ms"
    using generate_milestones_ok[OF _ re] by blast
  show ?thesis
    unfolding create_rollout_plan_def
    by (simp add: pr dp mw[unfolded w_def] ph[unfolded w_def] ws ms)
qed

section \<open>The example plan\<close>

lemma example_parse: "parse_release_date example_env ''2024-06-15'' = Inr (739051 * day_us)"
  by (simp add: parse_release_date_def example_env_def midnight_of_def)

lemma profile_fits_empty: "profile_fits Map.empty"
  by (simp add: profile_fits_def dict_get_def fits_double_def)

lemma votes_fit_empty: "votes_fit env Map.empty"
  by (simp add: votes_fit_def vote_count_of_def dict_get_def py_or_def except_type_value_def)

text \<open>
  Within the model, which takes the texts of \<open>_extract_movie_signature\<close> as given, a plan
  is returned when the dates fit and the numbers of the profile fit a double.
\<close>

lemma dates_fit_plan:
  assumes pr: "parse_release_date env rd = Inr r"
    and df: "dates_fit od r"
    and pf: "profile_fits (case prof of None \<Rightarrow> Map.empty | Some d \<Rightarrow> d)"
    and vf: "votes_fit env (case prof of None \<Rightarrow> Map.empty | Some d \<Rightarrow> d)"
  shows "\<exists>pl. create_rollout_plan env ranked rd None od prof sig = Inr pl"
proof -
  obtain params where dp:
    "derive_campaign_parameters env (case prof of None \<Rightarrow> Map.empty | Some d \<Rightarrow> d)
          ranked None od r = Inr params"
    using derive_ok[OF pf vf] by blast
  define w where "w = (case od of None \<Rightarrow> 16 | Some d \<Rightarrow> max 4 (d::int))"
  have w7: "7 * w \<le> 999999999" and wr: "(364877 + 7 * w) * day_us \<le> r"
    and re: "r < datetime_end"
    using df unfolding dates_fit_def Let_def w_def by auto
  from derive_fields[OF dp] obtain pop pb where
    cw: "campaign_weeks params = derive_weeks od (release_gap_weeks r (now_derive env)) pop
          (tier_count A ranked) pb" by blast
  have le: "max 4 (campaign_weeks params) \<le> w"
  proof (cases od)
    case None
    then show ?thesis using derive_weeks_range[of "release_gap_weeks r (now_derive env)" pop
        "tier_count A ranked" pb] cw w_def by simp
  next
    case (Some d)
    then show ?thesis using cw w_def by (simp add: derive_weeks_def)
  qed
  have wk: "7 * campaign_weeks params \<le> 999999999" using le w7 by simp
  have m: "max 4 (campaign_weeks params) * (7 * day_us) \<le> w * (7 * day_us)"
    using le day_us_pos by (intro mult_right_mono) auto
  have wr': "364877 * day_us + w * (7 * day_us) \<le> r" using wr by (simp add: algebra_simps)
  have d0: "0 \<le> 364877 * day_us" using day_us_pos by simp
  have st: "7 * max 4 (campaign_weeks params) * day_us \<le> r"
    using m wr' d0 by linarith
  have "campaign_weeks params * (7 * day_us) \<le> w * (7 * day_us)"
    using le day_us_pos by (intro mult_right_mono) auto
  then have "364877 * day_us \<le> r - 7 * campaign_weeks params * day_us"
    using wr' by linarith
  then have yr: "ranked = [] \<or> 364877 * day_us \<le> r - 7 * campaign_weeks params * day_us"
    by simp
  show ?thesis using plan_ok[OF pr dp re wk st yr] .
qed

lemma example_dates_fit: "dates_fit None (739051 * day_us)"
  by (simp add: dates_fit_def day_us_def datetime_end_def)

lemma example_plan:
  "\<exists>pl. create_rollout_plan example_env example_regions ''2024-06-15'' None None None
           example_sig = Inr pl"
  by (rule dates_fit_plan[OF example_parse example_dates_fit])
     (simp_all add: profile_fits_empty votes_fit_empty)

lemma example_derive:
  "\<exists>p. derive_campaign_parameters example_env Map.empty example_regions None None
          (739051 * day_us) = Inr p"
  by (rule derive_ok[OF profile_fits_empty votes_fit_empty])

lemma plan_fields:
  assumes "create_rollout_plan env ranked rd ob od prof sig = Inr pl"
  obtains r params s where
      "parse_release_date env rd = Inr r"
      "derive_campaign_parameters env (case prof of None \<Rightarrow> Map.empty | Some d \<Rightarrow> d)
          ranked ob od r = Inr params"
      "minus_weeks r (campaign_weeks params) = Inr s"
      "create_phases ranked s r sig (campaign_weeks params) = Inr (phases pl)"
      "create_timeline (phases pl) s r = Inr (timeline pl)"
      "generate_milestones s r = Inr (key_milestones pl)"
      "campaign_start pl = strftime_ymd s"
      "plan_duration_weeks pl = campaign_weeks params"
      "plan_total_budget pl = total_budget params"
      "allocations pl = allocate_budget ranked (of_int (total_budget params))"
proof -
  from plan_parts[OF assms] obtain r params s phs ws ms where
    a: "parse_release_date env rd = Inr r"
    and b: "derive_campaign_parameters env (case prof of None \<Rightarrow> Map.empty | Some d \<Rightarrow> d)
          ranked ob od r = Inr params"
    and c: "minus_weeks r (campaign_weeks params) = Inr s"
    and d: "create_phases ranked s r sig (campaign_weeks params) = Inr phs"
    and e: "create_timeline phs s r = Inr ws"
    and f: "generate_milestones s r = Inr ms"
    and g: "pl = \<lparr>release_date_text = rd, campaign_start = strftime_ymd s,
             plan_duration_weeks = campaign_weeks params,
             plan_total_budget = total_budget params,
             target_regions = length ranked, phases = phs,
             allocations = allocate_budget ranked (of_int (total_budget params)),
             timeline = ws, key_milestones = ms, plan_logic = params\<rparr>"
    by blast
  have "phases pl = phs" "timeline pl = ws" "key_milestones pl = ms"
    "campaign_start pl = strftime_ymd s" "plan_duration_weeks pl = campaign_weeks params"
    "plan_total_budget pl = total_budget params"
    "allocations pl = allocate_budget ranked (of_int (total_budget params))"
    unfolding g by simp_all
  then show ?thesis using that[of r params s] a b c d e f by simp
qed

text \<open>What every plan satisfies: its dates are whole weeks apart, one week at least.\<close>

lemma plan_weeks:
  assumes "derive_campaign_parameters env profile ranked ob od r = Inr params"
    and "minus_weeks r (campaign_weeks params) = Inr s"
  shows "r = s + 7 * campaign_weeks params * day_us" and "1 \<le> campaign_weeks params"
    and "r = s + 7 * int (nat (campaign_weeks params)) * day_us"
    and "strftime_ymd r = strftime_ymd s + 7 * campaign_weeks params"
proof -
  show w: "1 \<le> campaign_weeks params" using campaign_weeks_ge1[OF assms(1)] .
  show r: "r = s + 7 * campaign_weeks params * day_us"
    using minus_weeks_start[OF assms(2)] by simp
  show "r = s + 7 * int (nat (campaign_weeks params)) * day_us" using r w by simp
  show "strftime_ymd r = strftime_ymd s + 7 * campaign_weeks params"
    using strftime_shift[of s "7 * campaign_weeks params"] r by simp
qed

section \<open>Claims about the derived parameters\<close>

text \<open>
  C1. When neither override is given, the duration of the plan lies between 4 and 16 weeks
  and its total budget between 250000 and 20000000, a multiple of 50000.
\<close>

theorem derived_parameters_in_range:
  assumes "create_rollout_plan env ranked rd None None prof sig = Inr pl"
  shows "4 \<le> plan_duration_weeks pl \<and> plan_duration_weeks pl \<le> 16
     \<and> 250000 \<le> plan_total_budget pl \<and> plan_total_budget pl \<le> 20000000
     \<and> 50000 dvd plan_total_budget pl"
proof -
  from assms obtain r params where
    dp: "derive_campaign_parameters env (case prof of None \<Rightarrow> Map.empty | Some d \<Rightarrow> d)
          ranked None None r = Inr params"
    and w: "plan_duration_weeks pl = campaign_weeks params"
    and b: "plan_total_budget pl = total_budget params"
    by (rule plan_fields)
  show ?thesis unfolding w b by (rule derive_range[OF dp])
qed

theorem derived_parameters_in_range_witness:
  "\<exists>pl. create_rollout_plan example_env example_regions ''2024-06-15'' None None None
          example_sig = Inr pl
     \<and> 4 \<le> plan_duration_weeks pl \<and> plan_duration_weeks pl \<le> 16
     \<and> 250000 \<le> plan_total_budget pl \<and> plan_total_budget pl \<le> 20000000
     \<and> 50000 dvd plan_total_budget pl"
proof -
  from example_plan obtain pl where
    pl: "create_rollout_plan example_env example_regions ''2024-06-15'' None None None
          example_sig = Inr pl" by blast
  from derived_parameters_in_range[OF pl] pl show ?thesis by blast
qed

text \<open>
  C2. The campaign start of a plan is the release date, as parsed or replaced, minus seven
  days for each week of the duration the plan reports.
\<close>

theorem campaign_start_is_release_minus_weeks:
  assumes "create_rollout_plan env ranked rd ob od prof sig = Inr pl"
  shows "\<exists>r. parse_release_date env rd = Inr r
     \<and> campaign_start pl = strftime_ymd r - 7 * plan_duration_weeks pl"
proof -
  from assms obtain r params s where
    pr: "parse_release_date env rd = Inr r"
    and dp: "derive_campaign_parameters env (case prof of None \<Rightarrow> Map.empty | Some d \<Rightarrow> d)
          ranked ob od r = Inr params"
    and mw: "minus_weeks r (campaign_weeks params) = Inr s"
    and cs: "campaign_start pl = strftime_ymd s"
    and w: "plan_duration_weeks pl = campaign_weeks params"
    by (rule plan_fields)
  show ?thesis using pr cs w plan_weeks(4)[OF dp mw] by simp
qed

theorem campaign_start_is_release_minus_weeks_witness:
  "\<exists>pl. create_rollout_plan example_env example_regions ''2024-06-15'' None None None
          example_sig = Inr pl
     \<and> campaign_start pl = 739051 - 7 * plan_duration_weeks pl"
proof -
  from example_plan obtain pl where
    pl: "create_rollout_plan example_env example_regions ''2024-06-15'' None None None
          example_sig = Inr pl" by blast
  from campaign_start_is_release_minus_weeks[OF pl] obtain r where
    "parse_release_date example_env ''2024-06-15'' = Inr r"
    and c: "campaign_start pl = strftime_ymd r - 7 * plan_duration_weeks pl" by blast
  then have "r = 739051 * day_us" using example_parse by simp
  then have "strftime_ymd r = 739051" using strftime_shift[of 0 739051]
    by (simp add: strftime_ymd_def)
  then show ?thesis using pl c by auto
qed

text \<open>
  C3. The duration is the rule of the specification: without an override, the gap to the
  release clamped to 4..16 (6 when the gap is not positive), plus one week each for a
  popularity of at least 70, at least three tier A regions and a production budget of at
  least 150000000, clamped to 4..16; with an override, the override, at least 1.
\<close>

theorem campaign_weeks_follow_rule:
  assumes "derive_campaign_parameters env profile ranked ob od r = Inr p"
  shows "\<exists>popularity production_budget.
       popularity_of env profile = Inr popularity
     \<and> production_budget_of env profile = Inr production_budget
     \<and> campaign_weeks p =
         spec_campaign_weeks od (release_gap_weeks r (now_derive env)) popularity
           (tier_count A ranked) production_budget"
  using derive_fields[OF assms] unfolding derive_weeks_spec by blast

theorem campaign_weeks_follow_rule_witness:
  "\<exists>p. derive_campaign_parameters example_env Map.empty example_regions None None
          (739051 * day_us) = Inr p
     \<and> campaign_weeks p = 11"
proof -
  from example_derive obtain p where
    p: "derive_campaign_parameters example_env Map.empty example_regions None None
          (739051 * day_us) = Inr p" by blast
  from campaign_weeks_follow_rule[OF p] obtain popularity production_budget where
    a: "popularity_of example_env Map.empty = Inr popularity"
    and b: "production_budget_of example_env Map.empty = Inr production_budget"
    and c: "campaign_weeks p =
         spec_campaign_weeks None (release_gap_weeks (739051 * day_us) (now_derive example_env))
           popularity (tier_count A example_regions) production_budget" by blast
  have pop: "popularity = 45"
    using a by (simp add: popularity_of_def dict_get_def py_or_def except_type_value_def)
  have pb: "production_budget = 0"
    using b by (simp add: production_budget_of_def dict_get_def py_or_def except_type_value_def)
  have g: "release_gap_weeks (739051 * day_us) (now_derive example_env) = 11"
    by (simp add: release_gap_weeks_def release_gap_days_def days_between_def
          example_env_def day_us_def Let_def ceiling_eq_iff)
  have t: "tier_count A example_regions = 2"
    by (simp add: tier_count_def example_regions_def)
  have "campaign_weeks p = 11"
    unfolding c pop pb g t by (simp add: spec_campaign_weeks_def clamp_def)
  then show ?thesis using p by blast
qed

text \<open>
  C10. A popularity that is zero, None, empty or otherwise falsy is replaced by 45 before
  anything is derived from it: the derivation is that of the same profile with popularity
  45, and the popularity multiplier is that of 45, 1.1575, not 1.
\<close>

theorem falsy_popularity_is_45:
  assumes "\<not> truthy v"
  shows "derive_campaign_parameters env (profile(''popularity'' \<mapsto> v)) ranked ob od r
       = derive_campaign_parameters env (profile(''popularity'' \<mapsto> PInt 45)) ranked ob od r
     \<and> popularity_of env (profile(''popularity'' \<mapsto> v)) = Inr 45
     \<and> popularity_factor 45 = 463 / 400"
proof -
  have p1: "popularity_of env (profile(''popularity'' \<mapsto> v)) = Inr 45"
    by (rule popularity_falsy[OF assms])
  have p2: "popularity_of env (profile(''popularity'' \<mapsto> PInt 45)) = Inr 45"
    by (simp add: popularity_of_def dict_get_def py_or_def except_type_value_def)
  have b: "production_budget_of env (profile(''popularity'' \<mapsto> v))
         = production_budget_of env (profile(''popularity'' \<mapsto> PInt 45))"
    by (simp add: production_budget_of_def dict_get_def)
  have vc: "vote_count_of env (profile(''popularity'' \<mapsto> v))
         = vote_count_of env (profile(''popularity'' \<mapsto> PInt 45))"
    by (simp add: vote_count_of_def dict_get_def)
  have db: "\<And>pop pb na nb idx.
      derive_budget env (profile(''popularity'' \<mapsto> v)) ob pop pb na nb idx
    = derive_budget env (profile(''popularity'' \<mapsto> PInt 45)) ob pop pb na nb idx"
    unfolding derive_budget_def vc ..
  have "derive_campaign_parameters env (profile(''popularity'' \<mapsto> v)) ranked ob od r
       = derive_campaign_parameters env (profile(''popularity'' \<mapsto> PInt 45)) ranked ob od r"
    unfolding derive_campaign_parameters_def p1 p2 b db ..
  moreover have "popularity_factor 45 = 463 / 400"
    by (simp add: popularity_factor_def)
  ultimately show ?thesis using p1 by simp
qed

theorem falsy_popularity_is_45_witness:
  "\<not> truthy (PInt 0)
   \<and> derive_campaign_parameters example_env (Map.empty(''popularity'' \<mapsto> PInt 0))
        example_regions None None (739051 * day_us)
     = derive_campaign_parameters example_env (Map.empty(''popularity'' \<mapsto> PInt 45))
        example_regions None None (739051 * day_us)
   \<and> popularity_of example_env (Map.empty(''popularity'' \<mapsto> PInt 0)) = Inr 45
   \<and> popularity_factor 45 = 463 / 400"
proof -
  have f: "\<not> truthy (PInt 0)" by simp
  from falsy_popularity_is_45[OF f] f show ?thesis by blast
qed



section \<open>Claims about the phases, the timeline and the milestones\<close>

text \<open>
  C4. In a plan over a non-empty ranking the budget percentages of the phases sum to 100:
  every phase but the last has the rounded share of its tier's weight, the last one the
  remainder; and the phases are those of the tiers that have a region, in the order A, B, C.
\<close>

theorem phase_percentages_sum_to_100:
  assumes "create_rollout_plan env ranked rd ob od prof sig = Inr pl" and "ranked \<noteq> []"
  shows "sum_list (map budget_percentage (phases pl)) = 100
     \<and> map budget_percentage (phases pl) = spec_percentages (map snd (weight_map ranked))
     \<and> map fst (weight_map ranked) = filter (\<lambda>t. tier_regions t ranked \<noteq> []) [A, B, C]
     \<and> map regions (phases pl) =
         filter (\<lambda>x. x \<noteq> []) (map (\<lambda>t. map region (tier_regions t ranked)) [A, B, C])"
proof -
  from assms(1) obtain r params s where
    dp: "derive_campaign_parameters env (case prof of None \<Rightarrow> Map.empty | Some d \<Rightarrow> d)
          ranked ob od r = Inr params"
    and mw: "minus_weeks r (campaign_weeks params) = Inr s"
    and cp: "create_phases ranked s r sig (campaign_weeks params) = Inr (phases pl)"
    by (rule plan_fields)
  note r = plan_weeks(1)[OF dp mw] and w = plan_weeks(2)[OF dp mw]
  have pc: "map budget_percentage (phases pl) = spec_percentages (map snd (weight_map ranked))"
    by (rule phases_percentages[OF r w cp])
  have "map snd (weight_map ranked) \<noteq> []"
    using ranked_nonempty_weights[OF assms(2)] by simp
  then have "sum_list (map budget_percentage (phases pl)) = 100"
    unfolding pc by (rule spec_percentages_sum)
  then show ?thesis
    using pc weight_map_keys[of ranked] phases_properties(1)[OF r w cp] by simp
qed

theorem phase_percentages_sum_to_100_witness:
  "\<exists>pl. create_rollout_plan example_env example_regions ''2024-06-15'' None None None
          example_sig = Inr pl
     \<and> example_regions \<noteq> []
     \<and> sum_list (map budget_percentage (phases pl)) = 100
     \<and> map regions (phases pl) = [[''US'', ''GB''], [''IN''], [''BR'']]"
proof -
  from example_plan obtain pl where
    pl: "create_rollout_plan example_env example_regions ''2024-06-15'' None None None
          example_sig = Inr pl" by blast
  have ne: "example_regions \<noteq> []" by (simp add: example_regions_def)
  have f: "filter (\<lambda>x. x \<noteq> [])
          (map (\<lambda>t. map region (tier_regions t example_regions)) [A, B, C])
        = [[''US'', ''GB''], [''IN''], [''BR'']]"
    by (simp add: tier_regions_def example_regions_def)
  from phase_percentages_sum_to_100[OF pl ne]
  have a: "sum_list (map budget_percentage (phases pl)) = 100"
    and b: "map regions (phases pl) =
         filter (\<lambda>x. x \<noteq> [])
           (map (\<lambda>t. map region (tier_regions t example_regions)) [A, B, C])"
    by blast+
  show ?thesis using pl ne a b[unfolded f] by (intro exI[of _ pl]) simp
qed

text \<open>
  C5. The timeline of a plan tiles the days from the campaign start to the release: it is
  not empty, its first week starts at the campaign start, each week ends where the next one
  starts, every week (the last one too) spans 7 days, the last week ends on the release
  day, and the weeks are numbered 1, 2, 3 and so on.
\<close>

theorem timeline_tiles_campaign:
  assumes "create_rollout_plan env ranked rd ob od prof sig = Inr pl"
  shows "\<exists>r. parse_release_date env rd = Inr r
     \<and> timeline pl \<noteq> []
     \<and> week_start_date (hd (timeline pl)) = campaign_start pl
     \<and> (\<forall>i. Suc i < length (timeline pl) \<longrightarrow>
            week_end_date (timeline pl ! i) = week_start_date (timeline pl ! Suc i))
     \<and> (\<forall>i < length (timeline pl).
            week_end_date (timeline pl ! i) - week_start_date (timeline pl ! i) = 7)
     \<and> week_end_date (last (timeline pl)) = strftime_ymd r
     \<and> (\<forall>i < length (timeline pl). week_no (timeline pl ! i) = int i + 1)"
proof -
  from assms obtain r params s where
    pr: "parse_release_date env rd = Inr r"
    and dp: "derive_campaign_parameters env (case prof of None \<Rightarrow> Map.empty | Some d \<Rightarrow> d)
          ranked ob od r = Inr params"
    and mw: "minus_weeks r (campaign_weeks params) = Inr s"
    and ct: "create_timeline (phases pl) s r = Inr (timeline pl)"
    and cs: "campaign_start pl = strftime_ymd s"
    by (rule plan_fields)
  define n where "n = nat (campaign_weeks params)"
  have n1: "0 < n" unfolding n_def using plan_weeks(2)[OF dp mw] by simp
  have rn: "r = s + 7 * int n * day_us" unfolding n_def by (rule plan_weeks(3)[OF dp mw])
  define F where "F = (\<lambda>i. timeline_entry
                 (latest_started (phases pl) (s + 7 * int i * day_us)) r
                 (s + 7 * int i * day_us) (s + 7 * (int i + 1) * day_us) (1 + int i))"
  have tl: "timeline pl = map F [0..<n]"
    unfolding F_def using timeline_loop_shape[OF rn ct[unfolded create_timeline_def]] .
  have len: "length (timeline pl) = n" unfolding tl by simp
  have nth: "\<And>i. i < n \<Longrightarrow> timeline pl ! i = F i" unfolding tl by simp
  have sd: "week_start_date (F i) = strftime_ymd s + 7 * int i" for i
    unfolding F_def timeline_entry_def Let_def
    using strftime_shift[of s "7 * int i"] by simp
  have ed: "week_end_date (F i) = strftime_ymd s + 7 * (int i + 1)" for i
    unfolding F_def timeline_entry_def Let_def
    using strftime_shift[of s "7 * (int i + 1)"] by simp
  have wn: "\<And>i. week_no (F i) = int i + 1"
    unfolding F_def timeline_entry_def Let_def by simp
  have ne: "timeline pl \<noteq> []" using len n1 by auto
  have hd: "hd (timeline pl) = F 0" using nth[of 0] n1 ne by (simp add: hd_conv_nth)
  have la: "last (timeline pl) = F (n - 1)"
    using nth[of "n - 1"] n1 ne len by (simp add: last_conv_nth)
  have rd: "strftime_ymd r = strftime_ymd s + 7 * int n"
    unfolding rn using strftime_shift[of s "7 * int n"] by simp
  have c1: "week_start_date (hd (timeline pl)) = campaign_start pl"
    unfolding hd sd cs by simp
  have c2: "\<forall>i. Suc i < length (timeline pl) \<longrightarrow>
            week_end_date (timeline pl ! i) = week_start_date (timeline pl ! Suc i)"
    unfolding len by (simp add: nth sd ed)
  have c3: "\<forall>i < length (timeline pl).
            week_end_date (timeline pl ! i) - week_start_date (timeline pl ! i) = 7"
    unfolding len by (simp add: nth sd ed)
  have c4: "week_end_date (last (timeline pl)) = strftime_ymd r"
    unfolding la ed rd using n1 by (simp add: of_nat_diff)
  have c5: "\<forall>i < length (timeline pl). week_no (timeline pl ! i) = int i + 1"
    unfolding len by (simp add: nth wn)
  show ?thesis using pr ne c1 c2 c3 c4 c5 by blast
qed

theorem timeline_tiles_campaign_witness:
  "\<exists>pl. create_rollout_plan example_env example_regions ''2024-06-15'' None None None
          example_sig = Inr pl
     \<and> timeline pl \<noteq> []
     \<and> week_start_date (hd (timeline pl)) = campaign_start pl
     \<and> week_end_date (last (timeline pl)) = 739051
     \<and> week_no (hd (timeline pl)) = 1"
proof -
  from example_plan obtain pl where
    pl: "create_rollout_plan example_env example_regions ''2024-06-15'' None None None
          example_sig = Inr pl" by blast
  from timeline_tiles_campaign[OF pl] obtain r where
    pr: "parse_release_date example_env ''2024-06-15'' = Inr r"
    and ne: "timeline pl \<noteq> []"
    and c1: "week_start_date (hd (timeline pl)) = campaign_start pl"
    and c4: "week_end_date (last (timeline pl)) = strftime_ymd r"
    and c5: "\<forall>i < length (timeline pl). week_no (timeline pl ! i) = int i + 1"
    by blast
  have "r = 739051 * day_us" using pr example_parse by simp
  then have rd: "strftime_ymd r = 739051" using strftime_shift[of 0 739051]
    by (simp add: strftime_ymd_def)
  have "week_no (timeline pl ! 0) = 1" using c5 ne by simp
  then have "week_no (hd (timeline pl)) = 1" using ne by (simp add: hd_conv_nth)
  then show ?thesis using pl ne c1 c4 rd by (intro exI[of _ pl]) simp
qed

text \<open>
  C8. Each week of the timeline takes its phase name, its regions and its intensity from
  the last phase, in the order of the phase list, among those that start on or before the
  first day of the week; no other such phase starts later than that one. A week before
  every phase is the Pre-campaign week, with no regions and Low intensity.
\<close>

theorem week_takes_latest_started_phase:
  assumes "create_rollout_plan env ranked rd ob od prof sig = Inr pl"
    and "wk \<in> set (timeline pl)"
  shows "(let started = filter (\<lambda>p. start_date p \<le> week_start_date wk) (phases pl)
          in if started = []
             then week_phase wk = ''Pre-campaign'' \<and> active_regions wk = []
                  \<and> week_intensity wk = ''Low''
             else week_phase wk = name (last started)
                  \<and> active_regions wk = regions (last started)
                  \<and> week_intensity wk = intensity (last started)
                  \<and> (\<forall>p \<in> set started. start_date p \<le> start_date (last started)))"
proof -
  from assms(1) obtain r params s where
    dp: "derive_campaign_parameters env (case prof of None \<Rightarrow> Map.empty | Some d \<Rightarrow> d)
          ranked ob od r = Inr params"
    and mw: "minus_weeks r (campaign_weeks params) = Inr s"
    and cp: "create_phases ranked s r sig (campaign_weeks params) = Inr (phases pl)"
    and ct: "create_timeline (phases pl) s r = Inr (timeline pl)"
    by (rule plan_fields)
  note r = plan_weeks(1)[OF dp mw] and w = plan_weeks(2)[OF dp mw]
    and rn = plan_weeks(3)[OF dp mw]
  have so: "sorted (map start_date (phases pl))" by (rule phases_properties(3)[OF r w cp])
  have "wk \<in> set (map (\<lambda>i. timeline_entry
            (latest_started (phases pl) (s + 7 * int i * day_us)) r (s + 7 * int i * day_us)
            (s + 7 * (int i + 1) * day_us) (1 + int i)) [0..<nat (campaign_weeks params)])"
    using timeline_loop_shape[OF rn ct[unfolded create_timeline_def]] assms(2) by simp
  then obtain i where "wk = timeline_entry
            (latest_started (phases pl) (s + 7 * int i * day_us)) r (s + 7 * int i * day_us)
            (s + 7 * (int i + 1) * day_us) (1 + int i)"
    unfolding set_map by (elim imageE)
  then obtain c e k where wk: "wk = timeline_entry (latest_started (phases pl) c) r c e k"
    by blast
  define started where "started = filter (\<lambda>p. start_date p \<le> strftime_ymd c) (phases pl)"
  have ws: "week_start_date wk = strftime_ymd c"
    unfolding wk timeline_entry_def Let_def by simp
  have ap: "latest_started (phases pl) c = (if started = [] then None else Some (last started))"
    unfolding started_def latest_started_def Let_def ..
  have mx: "\<forall>p \<in> set started. start_date p \<le> start_date (last started)"
    unfolding started_def using sorted_filter_last[OF so] by blast
  have "if started = []
        then week_phase wk = ''Pre-campaign'' \<and> active_regions wk = []
             \<and> week_intensity wk = ''Low''
        else week_phase wk = name (last started)
             \<and> active_regions wk = regions (last started)
             \<and> week_intensity wk = intensity (last started)
             \<and> (\<forall>p \<in> set started. start_date p \<le> start_date (last started))"
    using mx unfolding wk timeline_entry_def Let_def ap by simp
  then show ?thesis unfolding Let_def ws started_def .
qed

lemma plan_timeline_nonempty:
  assumes "create_rollout_plan env ranked rd ob od prof sig = Inr pl"
  shows "timeline pl \<noteq> []"
proof -
  from assms obtain r params s where
    dp: "derive_campaign_parameters env (case prof of None \<Rightarrow> Map.empty | Some d \<Rightarrow> d)
          ranked ob od r = Inr params"
    and mw: "minus_weeks r (campaign_weeks params) = Inr s"
    and ct: "create_timeline (phases pl) s r = Inr (timeline pl)"
    by (rule plan_fields)
  have "length (timeline pl) = nat (campaign_weeks params)"
    using timeline_loop_shape[OF plan_weeks(3)[OF dp mw] ct[unfolded create_timeline_def]]
    by simp
  then show ?thesis using plan_weeks(2)[OF dp mw] by auto
qed

theorem week_takes_latest_started_phase_witness:
  "\<exists>pl wk. create_rollout_plan example_env example_regions ''2024-06-15'' None None None
          example_sig = Inr pl
     \<and> wk \<in> set (timeline pl)
     \<and> (let started = filter (\<lambda>p. start_date p \<le> week_start_date wk) (phases pl)
          in if started = []
             then week_phase wk = ''Pre-campaign'' \<and> active_regions wk = []
                  \<and> week_intensity wk = ''Low''
             else week_phase wk = name (last started)
                  \<and> active_regions wk = regions (last started)
                  \<and> week_intensity wk = intensity (last started)
                  \<and> (\<forall>p \<in> set started. start_date p \<le> start_date (last started)))"
proof -
  from example_plan obtain pl where
    pl: "create_rollout_plan example_env example_regions ''2024-06-15'' None None None
          example_sig = Inr pl" by blast
  have m: "hd (timeline pl) \<in> set (timeline pl)"
    using plan_timeline_nonempty[OF pl] by simp
  show ?thesis
    using pl m week_takes_latest_started_phase[OF pl m]
    by (intro exI[of _ pl] exI[of _ "hd (timeline pl)"] conjI)
qed

lemma early_milestones:
  "generate_milestones (364865 * day_us) (364893 * day_us) =
     Inr [\<lparr>date = ''1000-01-03'', milestone = ''Ticket Pre-Sales Open'',
            description = ''Drive early bookings, create urgency''\<rparr>,
          \<lparr>date = ''1000-01-10'', milestone = ''World Premiere'',
            description = ''Red carpet event, press coverage, reviews''\<rparr>,
          \<lparr>date = ''1000-01-17'', milestone = release_day_name,
            description = ''Full availability, maximize opening weekend''\<rparr>,
          \<lparr>date = ''999-12-20'', milestone = ''Campaign Launch'',
            description = ''Teaser release, social media kickoff''\<rparr>]"
  by code_simp

lemma early_parse: "parse_release_date example_env ''1000-01-17'' = Inr (364893 * day_us)"
  by (simp add: parse_release_date_def example_env_def midnight_of_def)

lemma early_plan:
  "\<exists>pl. create_rollout_plan example_env [] ''1000-01-17'' None (Some 4) None example_sig
          = Inr pl"
proof -
  obtain params where dp0:
    "derive_campaign_parameters example_env Map.empty [] None (Some 4) (364893 * day_us)
       = Inr params"
    using derive_ok[OF profile_fits_empty votes_fit_empty] by blast
  then have dp:
    "derive_campaign_parameters example_env (case None of None \<Rightarrow> Map.empty | Some d \<Rightarrow> d)
          [] None (Some 4) (364893 * day_us) = Inr params"
    by simp
  from derive_fields[OF dp] have cw: "campaign_weeks params = 4"
    by (auto simp: derive_weeks_def)
  show ?thesis
    by (rule plan_ok[OF early_parse dp]) (simp_all add: cw day_us_def datetime_end_def)
qed

lemma early_date_text: "date_text 364865 = ''999-12-20''"
  by code_simp

text \<open>
  C9. The milestones are sorted by the text of their dates, and a year before 1000 is
  printed without leading zeros. A release on 1000-01-17 with a campaign of 4 weeks starts
  on 999-12-20: the plan lists the pre-sales, the premiere and the release day first and
  the campaign launch last, so the list is not in the order of the dates, the first
  milestone is not the campaign launch and the last one is not the release day.
\<close>

theorem milestones_sorted_by_text:
  "\<exists>pl. create_rollout_plan example_env [] ''1000-01-17'' None (Some 4) None example_sig
          = Inr pl
     \<and> campaign_start pl = 364865
     \<and> map date (key_milestones pl)
         = [''1000-01-03'', ''1000-01-10'', ''1000-01-17'', ''999-12-20'']
     \<and> map milestone (key_milestones pl)
         = [''Ticket Pre-Sales Open'', ''World Premiere'', release_day_name,
            ''Campaign Launch'']
     \<and> date (last (key_milestones pl)) = date_text (campaign_start pl)
     \<and> milestone (hd (key_milestones pl)) \<noteq> ''Campaign Launch''
     \<and> milestone (last (key_milestones pl)) \<noteq> release_day_name"
proof -
  from early_plan obtain pl where
    pl: "create_rollout_plan example_env [] ''1000-01-17'' None (Some 4) None example_sig
          = Inr pl" by blast
  from pl obtain r params s where
    pr: "parse_release_date example_env ''1000-01-17'' = Inr r"
    and dp: "derive_campaign_parameters example_env
          (case None of None \<Rightarrow> Map.empty | Some d \<Rightarrow> d) [] None (Some 4) r = Inr params"
    and mw: "minus_weeks r (campaign_weeks params) = Inr s"
    and gm: "generate_milestones s r = Inr (key_milestones pl)"
    and cs: "campaign_start pl = strftime_ymd s"
    by (rule plan_fields)
  have r: "r = 364893 * day_us" using pr early_parse by simp
  from derive_fields[OF dp] have cw: "campaign_weeks params = 4"
    by (auto simp: derive_weeks_def)
  have s: "s = 364865 * day_us"
    using minus_weeks_start[OF mw] unfolding r cw by simp
  have c: "campaign_start pl = 364865"
    unfolding cs s using strftime_shift[of 0 364865] by (simp add: strftime_ymd_def)
  have km: "key_milestones pl =
     [\<lparr>date = ''1000-01-03'', milestone = ''Ticket Pre-Sales Open'',
            description = ''Drive early bookings, create urgency''\<rparr>,
          \<lparr>date = ''1000-01-10'', milestone = ''World Premiere'',
            description = ''Red carpet event, press coverage, reviews''\<rparr>,
          \<lparr>date = ''1000-01-17'', milestone = release_day_name,
            description = ''Full availability, maximize opening weekend''\<rparr>,
          \<lparr>date = ''999-12-20'', milestone = ''Campaign Launch'',
            description = ''Teaser release, social media kickoff''\<rparr>]"
    using gm unfolding r s early_milestones by simp
  have n: "''Campaign Launch'' \<noteq> release_day_name" by (simp add: release_day_name_def)
  show ?thesis
    using pl n by (intro exI[of _ pl]) (simp add: km c early_date_text)
qed

section \<open>Budget allocation\<close>

























section \<open>Claims about the budget allocation\<close>













section \<open>Claims about errors and defaults\<close>











end
